theory Spec2Isabelle
  imports Complex_Main "HOL-Library.Multiset"
begin

section \<open>HikariWeave: event queue, modulation matrix and band onsets\<close>

text \<open>
  A shallow embedding of three classes of the HikariWeave audio core: \<open>EventQueue\<close>,
  \<open>ModMatrix\<close> and the band-onset part of \<open>AudioEngine\<close>.

  A finite JavaScript number is modelled by the \<^typ>\<open>real\<close> it denotes. \<open>NaN\<close> and the
  infinities have no counterpart in \<^typ>\<open>real\<close>; where the source can produce them (a
  division by zero, an exponential beyond the doubles, a read past the end of a typed array)
  the model has an explicit branch for it, or the theorem names the condition that excludes
  it. Where the source compares a computed time with a time stamp, the computed time is
  rounded as a double is.
\<close>

subsection \<open>JavaScript numbers\<close>

text \<open>
  A JavaScript number is an IEEE double. A finite double is modelled by the real number it
  denotes, and the non-finite values by the constructors of \<open>number\<close>. \<open>js_divide\<close> is \<open>/\<close> on
  two finite numbers, \<open>js_greater\<close> is \<open>>\<close> against a finite number: \<open>NaN > x\<close> is false.
\<close>

datatype number = Num real | PosInf | NegInf | NaN

definition js_divide :: "real \<Rightarrow> real \<Rightarrow> number" where
  "js_divide a b =
     (if b \<noteq> 0 then Num (a / b) else if a > 0 then PosInf else if a < 0 then NegInf else NaN)"

fun js_greater :: "number \<Rightarrow> real \<Rightarrow> bool" where
  "js_greater (Num x) th = (x > th)"
| "js_greater PosInf th = True"
| "js_greater NegInf th = False"
| "js_greater NaN th = False"

text \<open>
  \<open>Math.exp\<close>, \<open>*\<close> with a finite left operand, \<open>+\<close> and \<open>Math.min\<close> against a finite number,
  as \<open>getMemoryValue\<close> uses them. \<open>Math.exp\<close> is \<open>Infinity\<close> when the exponential is beyond the
  doubles, that is from \<open>2 ^ 1024\<close> on; \<open>0 * Infinity\<close> and \<open>Infinity - Infinity\<close> are \<open>NaN\<close>, and
  \<open>Math.min\<close> is \<open>NaN\<close> when an argument is.
\<close>

fun js_exp :: "number \<Rightarrow> number" where
  "js_exp (Num x) = (if exp x \<ge> 2 ^ 1024 then PosInf else Num (exp x))"
| "js_exp PosInf = PosInf"
| "js_exp NegInf = Num 0"
| "js_exp NaN = NaN"

fun js_times :: "real \<Rightarrow> number \<Rightarrow> number" where
  "js_times a (Num b) = Num (a * b)"
| "js_times a PosInf = (if a > 0 then PosInf else if a < 0 then NegInf else NaN)"
| "js_times a NegInf = (if a > 0 then NegInf else if a < 0 then PosInf else NaN)"
| "js_times a NaN = NaN"

fun js_plus :: "number \<Rightarrow> number \<Rightarrow> number" where
  "js_plus (Num a) (Num b) = Num (a + b)"
| "js_plus (Num a) PosInf = PosInf"
| "js_plus (Num a) NegInf = NegInf"
| "js_plus PosInf (Num b) = PosInf"
| "js_plus PosInf PosInf = PosInf"
| "js_plus PosInf NegInf = NaN"
| "js_plus NegInf (Num b) = NegInf"
| "js_plus NegInf NegInf = NegInf"
| "js_plus NegInf PosInf = NaN"
| "js_plus NaN y = NaN"
| "js_plus x NaN = NaN"

fun js_min :: "number \<Rightarrow> real \<Rightarrow> number" where
  "js_min (Num a) b = Num (min a b)"
| "js_min PosInf b = Num b"
| "js_min NegInf b = NegInf"
| "js_min NaN b = NaN"

text \<open>A number is within \<open>eps\<close> of \<open>c\<close>: it is finite and at most \<open>eps\<close> away.\<close>

fun js_within :: "number \<Rightarrow> real \<Rightarrow> real \<Rightarrow> bool" where
  "js_within (Num x) c eps = (\<bar>x - c\<bar> \<le> eps)"
| "js_within PosInf c eps = False"
| "js_within NegInf c eps = False"
| "js_within NaN c eps = False"

text \<open>
  Rounding. The result of \<open>-\<close>, \<open>+\<close> or \<open>*\<close> on doubles is the exact result rounded to the
  nearest double, a tie going to the even significand. \<open>rhe\<close> rounds a real to the nearest
  integer, half to even; \<open>binade x\<close> is the exponent \<open>k\<close> with \<open>2 ^ k \<le> |x| < 2 ^ (k + 1)\<close>; \<open>ulp x\<close> is
  the distance of the doubles of that binade, whose significands have 53 bits; \<open>fl x\<close> is
  the double nearest to \<open>x\<close>. The exponent range of the doubles is left out: \<open>fl\<close> neither
  overflows nor loses precision near zero. The operations \<open>dsub\<close>, \<open>dadd\<close> and \<open>dmul\<close> are
  used where the source compares the result with a time stamp, so that the rounding decides
  which events are kept; a value that is only accumulated and returned is the exact value
  of its expression.
\<close>

definition rhe :: "real \<Rightarrow> int" where
  "rhe q =
     (let f = \<lfloor>q\<rfloor>
      in if q - of_int f < 1 / 2 then f
         else if q - of_int f > 1 / 2 then f + 1
         else if even f then f else f + 1)"

definition binade :: "real \<Rightarrow> int" where
  "binade x = \<lfloor>log 2 \<bar>x\<bar>\<rfloor>"

definition ulp :: "real \<Rightarrow> real" where
  "ulp x = 2 powi (binade x - 52)"

definition fl :: "real \<Rightarrow> real" where
  "fl x = (if x = 0 then 0 else of_int (rhe (x / ulp x)) * ulp x)"

definition dsub :: "real \<Rightarrow> real \<Rightarrow> real" where
  "dsub a b = fl (a - b)"

definition dadd :: "real \<Rightarrow> real \<Rightarrow> real" where
  "dadd a b = fl (a + b)"

definition dmul :: "real \<Rightarrow> real \<Rightarrow> real" where
  "dmul a b = fl (a * b)"

text \<open>A real is a double when rounding leaves it alone.\<close>

definition representable :: "real \<Rightarrow> bool" where
  "representable x = (fl x = x)"

subsection \<open>AudioEvent and EventQueue\<close>

datatype band = Low | Mid | High | Full

text \<open>
  \<open>interface AudioEvent { t; band; energy; pitch?; centroid? }\<close>. The fields carry the
  prefix \<open>ev_\<close> because several records of the program share field names. An optional
  field is an \<^typ>\<open>real option\<close>, \<^const>\<open>None\<close> for \<open>undefined\<close>.
\<close>

record AudioEvent =
  ev_t :: real
  ev_band :: band
  ev_energy :: real
  ev_pitch :: "real option"
  ev_centroid :: "real option"

text \<open>
  The private fields of \<open>class EventQueue\<close>. \<open>clusterWindow\<close> is initialised to
  \<open>0.03\<close> and never assigned again, so it is a constant of the model: the double that the
  literal \<open>0.03\<close> denotes, \<open>1080863910568919 / 2 ^ 55\<close>, a little less than \<open>3/100\<close>.
\<close>

record EventQueue =
  events :: "AudioEvent list"
  halfLife :: real

definition clusterWindow :: real where
  "clusterWindow = 1080863910568919 / 2 ^ 55"

text \<open>\<open>constructor(halfLife: number = 1.5)\<close>\<close>

definition EventQueue_new :: "real \<Rightarrow> EventQueue" where
  "EventQueue_new h = \<lparr>events = [], halfLife = h\<rparr>"

definition EventQueue_default :: EventQueue where
  "EventQueue_default = EventQueue_new (3 / 2)"

text \<open>
  The first loop of \<open>clusterEvent\<close>: every held event goes to \<open>clusteredEvents\<close> when its
  time lies in \<open>[clusterStart, clusterEnd]\<close> and to \<open>remainingEvents\<close> otherwise. Both
  arrays grow by \<open>push\<close>, that is at the end.
\<close>

fun cluster_split ::
  "real \<Rightarrow> real \<Rightarrow> AudioEvent list \<Rightarrow> AudioEvent list \<Rightarrow> AudioEvent list
    \<Rightarrow> AudioEvent list \<times> AudioEvent list" where
  "cluster_split clusterStart clusterEnd [] clusteredEvents remainingEvents =
     (clusteredEvents, remainingEvents)"
| "cluster_split clusterStart clusterEnd (event # rest) clusteredEvents remainingEvents =
     (if ev_t event \<ge> clusterStart \<and> ev_t event \<le> clusterEnd
      then cluster_split clusterStart clusterEnd rest (clusteredEvents @ [event]) remainingEvents
      else cluster_split clusterStart clusterEnd rest clusteredEvents (remainingEvents @ [event]))"

text \<open>
  The second loop of \<open>clusterEvent\<close>, over the cluster. The accumulator is
  \<open>(totalEnergy, weightedPitch, pitchWeight, weightedCentroid, centroidWeight)\<close>.
\<close>

type_synonym cluster_acc = "real \<times> real \<times> real \<times> real \<times> real"

fun cluster_sums :: "AudioEvent list \<Rightarrow> cluster_acc \<Rightarrow> cluster_acc" where
  "cluster_sums [] acc = acc"
| "cluster_sums (event # rest)
       (totalEnergy, weightedPitch, pitchWeight, weightedCentroid, centroidWeight) =
     cluster_sums rest
       (totalEnergy + ev_energy event,
        (case ev_pitch event of
           Some p \<Rightarrow> weightedPitch + p * ev_energy event | None \<Rightarrow> weightedPitch),
        (case ev_pitch event of
           Some p \<Rightarrow> pitchWeight + ev_energy event | None \<Rightarrow> pitchWeight),
        (case ev_centroid event of
           Some c \<Rightarrow> weightedCentroid + c * ev_energy event | None \<Rightarrow> weightedCentroid),
        (case ev_centroid event of
           Some c \<Rightarrow> centroidWeight + ev_energy event | None \<Rightarrow> centroidWeight))"

text \<open>
  \<open>clusterEvent(newEvent): AudioEvent | null\<close>. It replaces \<open>this.events\<close> by the events
  outside the window and returns the event to append. The window edges are the doubles
  \<open>newEvent.t - this.clusterWindow\<close> and \<open>newEvent.t + this.clusterWindow\<close>.
\<close>

definition clusterEvent :: "EventQueue \<Rightarrow> AudioEvent \<Rightarrow> AudioEvent option \<times> EventQueue" where
  "clusterEvent q newEvent =
     (case cluster_split (dsub (ev_t newEvent) clusterWindow) (dadd (ev_t newEvent) clusterWindow)
             (events q) [] [] of
        (clusteredEvents, remainingEvents) \<Rightarrow>
          if length clusteredEvents = 0
          then (Some newEvent, q\<lparr>events := remainingEvents\<rparr>)
          else
            (case cluster_sums (clusteredEvents @ [newEvent]) (0, 0, 0, 0, 0) of
               (totalEnergy, weightedPitch, pitchWeight, weightedCentroid, centroidWeight) \<Rightarrow>
                 (Some \<lparr>ev_t = ev_t newEvent,
                        ev_band = ev_band newEvent,
                        ev_energy = min totalEnergy 1,
                        ev_pitch =
                          (if pitchWeight > 0 then Some (weightedPitch / pitchWeight) else None),
                        ev_centroid =
                          (if centroidWeight > 0 then Some (weightedCentroid / centroidWeight)
                           else None)\<rparr>,
                  q\<lparr>events := remainingEvents\<rparr>)))"

definition push :: "EventQueue \<Rightarrow> AudioEvent \<Rightarrow> EventQueue" where
  "push q event =
     (case clusterEvent q event of
        (Some clusteredEvent, q') \<Rightarrow> q'\<lparr>events := events q' @ [clusteredEvent]\<rparr>
      | (None, q') \<Rightarrow> q')"

text \<open>The loop of \<open>popSince\<close>, with its two result arrays as accumulators.\<close>

fun popSince_loop ::
  "real \<Rightarrow> real \<Rightarrow> AudioEvent list \<Rightarrow> AudioEvent list \<Rightarrow> AudioEvent list
    \<Rightarrow> AudioEvent list \<times> AudioEvent list" where
  "popSince_loop t0 t1 [] relevantEvents remainingEvents = (relevantEvents, remainingEvents)"
| "popSince_loop t0 t1 (event # rest) relevantEvents remainingEvents =
     (if ev_t event \<ge> t0 \<and> ev_t event \<le> t1
      then popSince_loop t0 t1 rest (relevantEvents @ [event]) remainingEvents
      else if ev_t event > t1
      then popSince_loop t0 t1 rest relevantEvents (remainingEvents @ [event])
      else popSince_loop t0 t1 rest relevantEvents remainingEvents)"

text \<open>\<open>popSince(t0, t1)\<close> returns the events of the window and the queue left behind.\<close>

definition popSince :: "EventQueue \<Rightarrow> real \<Rightarrow> real \<Rightarrow> AudioEvent list \<times> EventQueue" where
  "popSince q t0 t1 =
     (case popSince_loop t0 t1 (events q) [] [] of
        (relevantEvents, remainingEvents) \<Rightarrow> (relevantEvents, q\<lparr>events := remainingEvents\<rparr>))"

text \<open>
  The loop of \<open>getMemoryValue\<close>; \<open>memory\<close> is the accumulator. \<open>age\<close> is the double
  \<open>currentTime - event.t\<close>; \<open>-age / this.halfLife\<close> is \<open>NaN\<close> or infinite when the half-life
  is \<open>0\<close>, and the exponential of a large quotient is \<open>Infinity\<close>.
\<close>

fun memory_loop :: "real \<Rightarrow> real \<Rightarrow> AudioEvent list \<Rightarrow> number \<Rightarrow> number" where
  "memory_loop h currentTime [] memory = memory"
| "memory_loop h currentTime (event # rest) memory =
     (if dsub currentTime (ev_t event) \<ge> 0
      then memory_loop h currentTime rest
             (js_plus memory
                (js_times (ev_energy event)
                   (js_exp (js_divide (- dsub currentTime (ev_t event)) h))))
      else memory_loop h currentTime rest memory)"

definition getMemoryValue :: "EventQueue \<Rightarrow> real \<Rightarrow> number" where
  "getMemoryValue q currentTime = js_min (memory_loop (halfLife q) currentTime (events q) (Num 0)) 1"

definition getBandEvents :: "EventQueue \<Rightarrow> band \<Rightarrow> real \<Rightarrow> AudioEvent list" where
  "getBandEvents q b currentTime =
     filter (\<lambda>event. ev_band event = b \<and> dsub currentTime (ev_t event) < dmul (halfLife q) 3)
       (events q)"

text \<open>\<open>cleanup(currentTime)\<close>; the cutoff is the double \<open>currentTime - this.halfLife * 3\<close>.\<close>

definition cleanup :: "EventQueue \<Rightarrow> real \<Rightarrow> EventQueue" where
  "cleanup q currentTime =
     q\<lparr>events := filter (\<lambda>event. ev_t event > dsub currentTime (dmul (halfLife q) 3)) (events q)\<rparr>"

definition getEventCount :: "EventQueue \<Rightarrow> nat" where
  "getEventCount q = length (events q)"

definition setHalfLife :: "EventQueue \<Rightarrow> real \<Rightarrow> EventQueue" where
  "setHalfLife q h = q\<lparr>halfLife := h\<rparr>"

subsection \<open>ModMatrix\<close>

datatype source_type = Audio | Manual | Lfo

datatype curve = Linear | Exponential | Logarithmic | Quantized

datatype polarity = Unipolar | Bipolar

datatype category = Motion | Shape | Color | Fx | Material | Mask

text \<open>
  The interfaces \<open>ModSource\<close>, \<open>ModTransform\<close>, \<open>ModTarget\<close> and \<open>ModConnection\<close> of
  \<open>types/index.ts\<close>. The fields are prefixed (\<open>src_\<close>, \<open>tr_\<close>, \<open>tgt_\<close>) because \<open>id\<close>,
  \<open>name\<close> and \<open>value\<close> occur in several of them; \<open>range: {min, max}\<close> is the pair of
  fields \<open>tr_range_min\<close>, \<open>tr_range_max\<close>.
\<close>

record ModSource =
  src_id :: string
  src_name :: string
  src_value :: real
  src_type :: source_type

record ModTransform =
  tr_id :: string
  tr_name :: string
  tr_attack :: real
  tr_decay :: real
  tr_hold :: real
  tr_curve :: curve
  tr_range_min :: real
  tr_range_max :: real
  tr_polarity :: polarity
  tr_gate :: bool
  tr_trigger :: bool
  tr_jitter :: real

record ModTarget =
  tgt_id :: string
  tgt_name :: string
  tgt_category :: category
  tgt_value :: real

record ModConnection =
  sourceId :: string
  transformId :: string
  targetId :: string
  amount :: real

record ModMatrix =
  sources :: "ModSource list"
  transforms :: "ModTransform list"
  targets :: "ModTarget list"
  connections :: "ModConnection list"

definition mkSource :: "string \<Rightarrow> string \<Rightarrow> real \<Rightarrow> source_type \<Rightarrow> ModSource" where
  "mkSource i n v ty = \<lparr>src_id = i, src_name = n, src_value = v, src_type = ty\<rparr>"

definition mkTarget :: "string \<Rightarrow> string \<Rightarrow> category \<Rightarrow> real \<Rightarrow> ModTarget" where
  "mkTarget i n c v = \<lparr>tgt_id = i, tgt_name = n, tgt_category = c, tgt_value = v\<rparr>"

text \<open>\<open>initializeDefaultSources\<close>\<close>

definition defaultSources :: "ModSource list" where
  "defaultSources =
    [mkSource ''low'' ''Low'' 0 Audio,
     mkSource ''mid'' ''Mid'' 0 Audio,
     mkSource ''high'' ''High'' 0 Audio,
     mkSource ''rms'' ''RMS'' 0 Audio,
     mkSource ''peak'' ''Peak'' 0 Audio,
     mkSource ''onset'' ''Onset'' 0 Audio,
     mkSource ''bpm'' ''BPM'' 0 Audio,
     mkSource ''centroid'' ''Centroid'' 0 Audio,
     mkSource ''pitch'' ''Pitch'' 0 Audio,
     mkSource ''manual1'' ''Manual 1'' 0 Manual,
     mkSource ''manual2'' ''Manual 2'' 0 Manual,
     mkSource ''lfo1'' ''LFO 1'' 0 Lfo,
     mkSource ''lfo2'' ''LFO 2'' 0 Lfo]"

text \<open>\<open>initializeDefaultTransforms\<close>\<close>

definition env1 :: ModTransform where
  "env1 = \<lparr>tr_id = ''env1'', tr_name = ''Envelope 1'', tr_attack = 1 / 10, tr_decay = 3 / 10,
     tr_hold = 1 / 10, tr_curve = Exponential, tr_range_min = 0, tr_range_max = 1,
     tr_polarity = Unipolar, tr_gate = False, tr_trigger = False, tr_jitter = 0\<rparr>"

definition env2 :: ModTransform where
  "env2 = \<lparr>tr_id = ''env2'', tr_name = ''Envelope 2'', tr_attack = 5 / 100, tr_decay = 1 / 2,
     tr_hold = 2 / 10, tr_curve = Linear, tr_range_min = - 1, tr_range_max = 1,
     tr_polarity = Bipolar, tr_gate = True, tr_trigger = True, tr_jitter = 1 / 10\<rparr>"

definition curve1 :: ModTransform where
  "curve1 = \<lparr>tr_id = ''curve1'', tr_name = ''Curve 1'', tr_attack = 0, tr_decay = 0,
     tr_hold = 0, tr_curve = Quantized, tr_range_min = 0, tr_range_max = 1,
     tr_polarity = Unipolar, tr_gate = False, tr_trigger = False, tr_jitter = 0\<rparr>"

definition defaultTransforms :: "ModTransform list" where
  "defaultTransforms = [env1, env2, curve1]"

text \<open>\<open>initializeDefaultTargets\<close>\<close>

definition defaultTargets :: "ModTarget list" where
  "defaultTargets =
    [mkTarget ''posX'' ''Position X'' Motion 0,
     mkTarget ''posY'' ''Position Y'' Motion 0,
     mkTarget ''rotation'' ''Rotation'' Motion 0,
     mkTarget ''scale'' ''Scale'' Motion 1,
     mkTarget ''tile'' ''Tile'' Motion 1,
     mkTarget ''shake'' ''Shake'' Motion 0,
     mkTarget ''waveform'' ''Waveform'' Shape 0,
     mkTarget ''vertices'' ''Vertices'' Shape 3,
     mkTarget ''pwm'' ''PWM'' Shape (1 / 2),
     mkTarget ''noise'' ''Noise'' Shape 0,
     mkTarget ''domainWarp'' ''Domain Warp'' Shape 0,
     mkTarget ''hue'' ''Hue'' Color 0,
     mkTarget ''saturation'' ''Saturation'' Color 1,
     mkTarget ''value'' ''Value'' Color 1,
     mkTarget ''gradientPos'' ''Gradient Position'' Color 0,
     mkTarget ''bloom'' ''Bloom'' Color 0,
     mkTarget ''temperature'' ''Temperature'' Color 0,
     mkTarget ''strobe'' ''Strobe'' Fx 0,
     mkTarget ''blur'' ''Blur'' Fx 0,
     mkTarget ''edge'' ''Edge'' Fx 0,
     mkTarget ''glitch'' ''Glitch'' Fx 0,
     mkTarget ''chromaticAberration'' ''Chromatic Aberration'' Fx 0,
     mkTarget ''fresnel'' ''Fresnel'' Material 0,
     mkTarget ''roughness'' ''Roughness'' Material (1 / 2),
     mkTarget ''metallic'' ''Metallic'' Material 0,
     mkTarget ''maskOpen'' ''Mask Open'' Mask 1,
     mkTarget ''maskFeather'' ''Mask Feather'' Mask 0,
     mkTarget ''maskRotation'' ''Mask Rotation'' Mask 0]"

text \<open>\<open>constructor()\<close>\<close>

definition ModMatrix_new :: ModMatrix where
  "ModMatrix_new =
     \<lparr>sources = defaultSources, transforms = defaultTransforms, targets = defaultTargets,
      connections = []\<rparr>"

text \<open>
  \<open>xs.find(p)\<close> followed by an assignment to a field of the object found changes the first
  element of the array that satisfies \<open>p\<close>, and nothing when there is none.
\<close>

fun update_first :: "('a \<Rightarrow> bool) \<Rightarrow> ('a \<Rightarrow> 'a) \<Rightarrow> 'a list \<Rightarrow> 'a list" where
  "update_first p f [] = []"
| "update_first p f (x # xs) = (if p x then f x # xs else x # update_first p f xs)"

text \<open>
  The fields of \<open>interface AudioAnalysis\<close> that \<open>updateAudioSources\<close> reads, and the
  \<open>sourceMap\<close> it builds from them.
\<close>

record AudioAnalysis =
  an_rms :: real
  an_peak :: real
  an_low :: real
  an_mid :: real
  an_high :: real
  an_onset :: bool
  an_bpm :: real
  an_spectralCentroid :: real
  an_pitch :: real

definition sourceMap :: "ModMatrix \<Rightarrow> AudioAnalysis \<Rightarrow> (string \<times> real) list" where
  "sourceMap m analysis =
    [(''low'', an_low analysis),
     (''mid'', an_mid analysis),
     (''high'', an_high analysis),
     (''rms'', an_rms analysis),
     (''peak'', an_peak analysis),
     (''onset'', if an_onset analysis then 1 else 0),
     (''bpm'', an_bpm analysis / 200),
     (''centroid'', an_spectralCentroid analysis / real (length (sources m))),
     (''pitch'', an_pitch analysis / 2000)]"

definition updateAudioSources :: "ModMatrix \<Rightarrow> AudioAnalysis \<Rightarrow> ModMatrix" where
  "updateAudioSources m analysis =
     m\<lparr>sources :=
         map (\<lambda>source.
                if src_type source = Audio
                then (case map_of (sourceMap m analysis) (src_id source) of
                        Some v \<Rightarrow> source\<lparr>src_value := v\<rparr>
                      | None \<Rightarrow> source)
                else source)
             (sources m)\<rparr>"

definition applyEnvelope :: "real \<Rightarrow> ModTransform \<Rightarrow> real" where
  "applyEnvelope v transform = (if v > 1 / 10 then 1 else v * tr_decay transform)"

text \<open>
  \<open>applyTransform(value, transform)\<close>. \<open>Math.random()\<close> is a stream \<open>rnd\<close> of draws and
  the index \<open>k\<close> of the next one; the function returns the value and the next index.
  \<open>Math.round(x)\<close> is \<open>\<lfloor>x + 1/2\<rfloor>\<close>, and \<open>Math.sqrt\<close> of a negative number is \<open>NaN\<close>, which
  \<^const>\<open>sqrt\<close> is not: statements about the logarithmic curve are for values \<open>\<ge> 0\<close>.
\<close>

definition applyTransform ::
  "(nat \<Rightarrow> real) \<Rightarrow> nat \<Rightarrow> real \<Rightarrow> ModTransform \<Rightarrow> real \<times> nat" where
  "applyTransform rnd k v0 transform =
     (let v1 = (if tr_trigger transform \<and> tr_gate transform
                then applyEnvelope v0 transform else v0);
          v2 = (case tr_curve transform of
                  Linear \<Rightarrow> v1
                | Exponential \<Rightarrow> v1 ^ 2
                | Logarithmic \<Rightarrow> sqrt v1
                | Quantized \<Rightarrow> of_int \<lfloor>v1 * 8 + 1 / 2\<rfloor> / 8);
          v3 = v2 * (tr_range_max transform - tr_range_min transform) + tr_range_min transform
      in if tr_jitter transform > 0
         then (v3 + (rnd k - 1 / 2) * 2 * tr_jitter transform, Suc k)
         else (v3, k))"

text \<open>
  The body of the \<open>forEach\<close> of \<open>processConnections\<close>, as a loop over the connection
  list. The loop state is the target array, the index of the next random draw and the
  connections reported by \<open>console.warn\<close>.
\<close>

fun processConnections_loop ::
  "(nat \<Rightarrow> real) \<Rightarrow> ModSource list \<Rightarrow> ModTransform list \<Rightarrow> ModConnection list
    \<Rightarrow> ModTarget list \<Rightarrow> nat \<Rightarrow> ModConnection list
    \<Rightarrow> ModTarget list \<times> nat \<times> ModConnection list" where
  "processConnections_loop rnd srcs trs [] tgts k warned = (tgts, k, warned)"
| "processConnections_loop rnd srcs trs (connection # rest) tgts k warned =
     (case (find (\<lambda>s. src_id s = sourceId connection) srcs,
            find (\<lambda>t. tr_id t = transformId connection) trs,
            find (\<lambda>t. tgt_id t = targetId connection) tgts) of
        (Some source, Some transform, Some target) \<Rightarrow>
          (case applyTransform rnd k (src_value source) transform of
             (v, k') \<Rightarrow>
               processConnections_loop rnd srcs trs rest
                 (update_first (\<lambda>t. tgt_id t = targetId connection)
                    (\<lambda>t. t\<lparr>tgt_value := v * amount connection\<rparr>) tgts)
                 k' warned)
      | _ \<Rightarrow> processConnections_loop rnd srcs trs rest tgts k (warned @ [connection]))"

definition processConnections ::
  "(nat \<Rightarrow> real) \<Rightarrow> nat \<Rightarrow> ModMatrix \<Rightarrow> ModMatrix \<times> nat \<times> ModConnection list" where
  "processConnections rnd k m =
     (case processConnections_loop rnd (sources m) (transforms m) (connections m)
             (targets m) k [] of
        (tgts, k', warned) \<Rightarrow> (m\<lparr>targets := tgts\<rparr>, k', warned))"

definition addConnection :: "ModMatrix \<Rightarrow> ModConnection \<Rightarrow> ModMatrix" where
  "addConnection m connection = m\<lparr>connections := connections m @ [connection]\<rparr>"

definition updateConnectionAmount :: "ModMatrix \<Rightarrow> string \<Rightarrow> string \<Rightarrow> real \<Rightarrow> ModMatrix" where
  "updateConnectionAmount m sid tid a =
     m\<lparr>connections :=
         update_first (\<lambda>conn. sourceId conn = sid \<and> targetId conn = tid)
           (\<lambda>conn. conn\<lparr>amount := a\<rparr>) (connections m)\<rparr>"

text \<open>
  The \<open>updates\<close> object of \<open>updateTransform\<close> is a list of property assignments, which
  \<open>Object.assign\<close> performs in order.
\<close>

datatype transform_update =
    SetId string
  | SetName string
  | SetAttack real
  | SetDecay real
  | SetHold real
  | SetCurve curve
  | SetRange real real
  | SetPolarity polarity
  | SetGate bool
  | SetTrigger bool
  | SetJitter real

fun assign_update :: "transform_update \<Rightarrow> ModTransform \<Rightarrow> ModTransform" where
  "assign_update (SetId x) t = t\<lparr>tr_id := x\<rparr>"
| "assign_update (SetName x) t = t\<lparr>tr_name := x\<rparr>"
| "assign_update (SetAttack x) t = t\<lparr>tr_attack := x\<rparr>"
| "assign_update (SetDecay x) t = t\<lparr>tr_decay := x\<rparr>"
| "assign_update (SetHold x) t = t\<lparr>tr_hold := x\<rparr>"
| "assign_update (SetCurve x) t = t\<lparr>tr_curve := x\<rparr>"
| "assign_update (SetRange lo hi) t = t\<lparr>tr_range_min := lo, tr_range_max := hi\<rparr>"
| "assign_update (SetPolarity x) t = t\<lparr>tr_polarity := x\<rparr>"
| "assign_update (SetGate x) t = t\<lparr>tr_gate := x\<rparr>"
| "assign_update (SetTrigger x) t = t\<lparr>tr_trigger := x\<rparr>"
| "assign_update (SetJitter x) t = t\<lparr>tr_jitter := x\<rparr>"

definition updateTransform :: "ModMatrix \<Rightarrow> string \<Rightarrow> transform_update list \<Rightarrow> ModMatrix" where
  "updateTransform m tid updates =
     m\<lparr>transforms :=
         update_first (\<lambda>t. tr_id t = tid) (\<lambda>t. fold assign_update updates t) (transforms m)\<rparr>"

definition updateManualSource :: "ModMatrix \<Rightarrow> string \<Rightarrow> real \<Rightarrow> ModMatrix" where
  "updateManualSource m sid v =
     m\<lparr>sources :=
         update_first (\<lambda>s. src_id s = sid \<and> src_type s = Manual)
           (\<lambda>s. s\<lparr>src_value := v\<rparr>) (sources m)\<rparr>"

subsection \<open>AudioEngine: onsets by band\<close>

text \<open>A flux is a \<open>number\<close>: it may be the result of a division by zero.\<close>

record Onset =
  on_band :: band
  on_energy :: number

text \<open>
  Of \<open>interface AnalysisFrame\<close> the model keeps the time and the onsets; the band energies,
  pitch, chroma, tempo and colour fields are computed by functions that do not touch the
  state read by the onset detection.
\<close>

record AnalysisFrame =
  af_time :: real
  af_onsets :: "Onset list"

text \<open>
  The fields of \<open>class AudioEngine\<close> that the onset detection reads: whether \<open>analyser\<close> is
  set, the sample rate of the audio context, \<open>bufferLength\<close>, the two spectrum buffers and
  \<open>previousFrame\<close>. \<open>lowPassFreq\<close>, \<open>midPassFreq\<close> and \<open>onsetThresholds\<close> are never assigned
  after their initialisation.
\<close>

record AudioEngine =
  analyser :: bool
  sampleRate :: real
  bufferLength :: nat
  frequencyData :: "real list"
  previousSpectrum :: "real list"
  previousFrame :: "AnalysisFrame option"

definition lowPassFreq :: real where
  "lowPassFreq = 250"

definition midPassFreq :: real where
  "midPassFreq = 2000"

fun onsetThresholds :: "band \<Rightarrow> real" where
  "onsetThresholds Low = 3 / 10"
| "onsetThresholds Mid = 25 / 100"
| "onsetThresholds High = 2 / 10"
| "onsetThresholds Full = 15 / 100"

text \<open>Reading a \<open>Float32Array\<close>: \<open>undefined\<close> outside the array.\<close>

definition read_f32 :: "real list \<Rightarrow> int \<Rightarrow> real option" where
  "read_f32 xs i = (if 0 \<le> i \<and> i < int (length xs) then Some (xs ! nat i) else None)"

text \<open>
  The loop of \<open>calculateSpectralFlux\<close>. A difference with an \<open>undefined\<close> operand is
  \<open>NaN\<close>, and \<open>NaN > 0\<close> is false.
\<close>

function flux_loop :: "real list \<Rightarrow> real list \<Rightarrow> int \<Rightarrow> int \<Rightarrow> real \<Rightarrow> real" where
  "flux_loop currentSpectrum prevSpectrum i endBin flux =
     (if i < endBin
      then flux_loop currentSpectrum prevSpectrum (i + 1) endBin
             (case (read_f32 currentSpectrum i, read_f32 prevSpectrum i) of
                (Some a, Some b) \<Rightarrow> if a - b > 0 then flux + (a - b) else flux
              | _ \<Rightarrow> flux)
      else flux)"
  by pat_completeness auto
termination
  by (relation "measure (\<lambda>(c, p, i, e, f). nat (e - i))") auto

declare flux_loop.simps [simp del]

definition freq_bin :: "AudioEngine \<Rightarrow> real \<Rightarrow> int" where
  "freq_bin s freq = \<lfloor>freq / (sampleRate s / 2) * real (bufferLength s)\<rfloor>"

fun band_bins :: "AudioEngine \<Rightarrow> band \<Rightarrow> int \<times> int" where
  "band_bins s Low = (0, freq_bin s lowPassFreq)"
| "band_bins s Mid = (freq_bin s lowPassFreq, freq_bin s midPassFreq)"
| "band_bins s High = (freq_bin s midPassFreq, int (bufferLength s))"
| "band_bins s Full = (0, int (bufferLength s))"

definition calculateSpectralFlux :: "AudioEngine \<Rightarrow> band \<Rightarrow> number" where
  "calculateSpectralFlux s b =
     (if previousFrame s = None then Num 0
      else
        (let currentSpectrum = frequencyData s;
             prevSpectrum = (if previousFrame s \<noteq> None then frequencyData s
                             else replicate (bufferLength s) 0)
         in case band_bins s b of
              (startBin, endBin) \<Rightarrow>
                js_divide (flux_loop currentSpectrum prevSpectrum startBin endBin 0)
                  (real_of_int (endBin - startBin))))"

definition detectBandOnsets :: "AudioEngine \<Rightarrow> Onset list" where
  "detectBandOnsets s =
     (if previousFrame s = None then []
      else
        (let lowFlux = calculateSpectralFlux s Low;
             midFlux = calculateSpectralFlux s Mid;
             highFlux = calculateSpectralFlux s High;
             fullFlux = calculateSpectralFlux s Full
         in (if js_greater lowFlux (onsetThresholds Low)
             then [\<lparr>on_band = Low, on_energy = lowFlux\<rparr>] else [])
          @ (if js_greater midFlux (onsetThresholds Mid)
             then [\<lparr>on_band = Mid, on_energy = midFlux\<rparr>] else [])
          @ (if js_greater highFlux (onsetThresholds High)
             then [\<lparr>on_band = High, on_energy = highFlux\<rparr>] else [])
          @ (if js_greater fullFlux (onsetThresholds Full)
             then [\<lparr>on_band = Full, on_energy = fullFlux\<rparr>] else [])))"

text \<open>
  \<open>getFloatFrequencyData(array)\<close> overwrites the array with the analyser's spectrum, as
  far as both reach.
\<close>

definition fill_f32 :: "real list \<Rightarrow> real list \<Rightarrow> real list" where
  "fill_f32 array spectrum = take (length array) spectrum @ drop (length spectrum) array"

datatype engine_error = NotInitialized

text \<open>
  \<open>getAnalysisFrame()\<close>, one analysis tick. The clock of the audio context and the
  spectrum the analyser delivers are its inputs.
\<close>

definition getAnalysisFrame ::
  "AudioEngine \<Rightarrow> real \<Rightarrow> real list \<Rightarrow> engine_error + (AnalysisFrame \<times> AudioEngine)" where
  "getAnalysisFrame s currentTime spectrum =
     (if \<not> analyser s then Inl NotInitialized
      else
        (let s1 = s\<lparr>frequencyData := fill_f32 (frequencyData s) spectrum\<rparr>;
             frame = \<lparr>af_time = currentTime, af_onsets = detectBandOnsets s1\<rparr>
         in Inr (frame, s1\<lparr>previousFrame := Some frame\<rparr>)))"

text \<open>
  The flux of a band as the specification words it: the sum of the positive differences
  between the current and the previous spectrum over the bins of the band, divided by the
  number of bins.
\<close>

definition spec_flux :: "real list \<Rightarrow> real list \<Rightarrow> nat \<Rightarrow> nat \<Rightarrow> real" where
  "spec_flux prev cur startBin endBin =
     (\<Sum>i\<leftarrow>[startBin..<endBin]. max 0 (cur ! i - prev ! i)) / real (endBin - startBin)"

subsection \<open>Auxiliary notions and sample data\<close>

definition mkEvent :: "real \<Rightarrow> band \<Rightarrow> real \<Rightarrow> real option \<Rightarrow> real option \<Rightarrow> AudioEvent" where
  "mkEvent t b e p c = \<lparr>ev_t = t, ev_band = b, ev_energy = e, ev_pitch = p, ev_centroid = c\<rparr>"

text \<open>
  What one event adds to the four weighted sums of \<open>clusterEvent\<close>: nothing when it has
  no pitch (no centroid), its energy as weight otherwise.
\<close>

definition pitch_term :: "AudioEvent \<Rightarrow> real" where
  "pitch_term e = (case ev_pitch e of Some p \<Rightarrow> p * ev_energy e | None \<Rightarrow> 0)"

definition pitch_weight :: "AudioEvent \<Rightarrow> real" where
  "pitch_weight e = (case ev_pitch e of Some p \<Rightarrow> ev_energy e | None \<Rightarrow> 0)"

definition centroid_term :: "AudioEvent \<Rightarrow> real" where
  "centroid_term e = (case ev_centroid e of Some c \<Rightarrow> c * ev_energy e | None \<Rightarrow> 0)"

definition centroid_weight :: "AudioEvent \<Rightarrow> real" where
  "centroid_weight e = (case ev_centroid e of Some c \<Rightarrow> ev_energy e | None \<Rightarrow> 0)"

text \<open>
  The event that stands for the cluster of \<open>e1\<close> and a newer \<open>e2\<close>: time and band of
  \<open>e2\<close>, the capped sum of the energies, and the energy-weighted mean of the pitches
  (centroids) present, provided the weights of those sum to more than zero.
\<close>

definition merged :: "AudioEvent \<Rightarrow> AudioEvent \<Rightarrow> AudioEvent" where
  "merged e1 e2 =
     \<lparr>ev_t = ev_t e2, ev_band = ev_band e2,
      ev_energy = min 1 (ev_energy e1 + ev_energy e2),
      ev_pitch =
        (if pitch_weight e1 + pitch_weight e2 > 0
         then Some ((pitch_term e1 + pitch_term e2) / (pitch_weight e1 + pitch_weight e2))
         else None),
      ev_centroid =
        (if centroid_weight e1 + centroid_weight e2 > 0
         then Some ((centroid_term e1 + centroid_term e2)
                    / (centroid_weight e1 + centroid_weight e2))
         else None)\<rparr>"

definition in_window :: "real \<Rightarrow> real \<Rightarrow> AudioEvent \<Rightarrow> bool" where
  "in_window t0 t1 e = (t0 \<le> ev_t e \<and> ev_t e \<le> t1)"

text \<open>
  The time \<open>tx\<close> lies in the cluster window that \<open>clusterEvent\<close> computes for a new event
  at time \<open>tn\<close>.
\<close>

definition in_cluster :: "real \<Rightarrow> real \<Rightarrow> bool" where
  "in_cluster tn tx = (dsub tn clusterWindow \<le> tx \<and> tx \<le> dadd tn clusterWindow)"

text \<open>A call sequence on a queue, and the time stamps it pushes.\<close>

datatype queue_op = Push AudioEvent | PopSince real real | Cleanup real | SetHalfLife real

fun apply_op :: "EventQueue \<Rightarrow> queue_op \<Rightarrow> EventQueue" where
  "apply_op q (Push e) = push q e"
| "apply_op q (PopSince t0 t1) = snd (popSince q t0 t1)"
| "apply_op q (Cleanup now) = cleanup q now"
| "apply_op q (SetHalfLife h) = setHalfLife q h"

fun run_ops :: "EventQueue \<Rightarrow> queue_op list \<Rightarrow> EventQueue" where
  "run_ops q [] = q"
| "run_ops q (op # ops) = run_ops (apply_op q op) ops"

fun pushed_times :: "queue_op list \<Rightarrow> real list" where
  "pushed_times [] = []"
| "pushed_times (Push e # ops) = ev_t e # pushed_times ops"
| "pushed_times (op # ops) = pushed_times ops"

text \<open>
  Every entry of the list lies outside the cluster windows computed for the entries after
  it, which are the newer ones.
\<close>

fun apart :: "AudioEvent list \<Rightarrow> bool" where
  "apart [] = True"
| "apart (x # xs) = ((\<forall>e \<in> set xs. \<not> in_cluster (ev_t e) (ev_t x)) \<and> apart xs)"

text \<open>
  The doubles that the literals \<open>0.001\<close>, \<open>0.02\<close>, \<open>0.031\<close>, \<open>0.1\<close>, \<open>0.4\<close> and \<open>1.03\<close> denote.
\<close>

definition double_0_001 :: real where
  "double_0_001 = 1152921504606847 / 2 ^ 60"

definition double_0_02 :: real where
  "double_0_02 = 5764607523034235 / 2 ^ 58"

definition double_0_031 :: real where
  "double_0_031 = 1116892707587883 / 2 ^ 55"

definition double_0_1 :: real where
  "double_0_1 = 3602879701896397 / 2 ^ 55"

definition double_0_4 :: real where
  "double_0_4 = 3602879701896397 / 2 ^ 53"

definition double_1_03 :: real where
  "double_1_03 = 4638707616191611 / 2 ^ 52"

text \<open>A burst of two pushes 1/64 s apart, a third push a second later, and two sweeps.\<close>

definition burst_ops :: "queue_op list" where
  "burst_ops =
     [Push (mkEvent 0 Low (1 / 2) None None), Push (mkEvent (1 / 64) Mid (1 / 4) None None),
      Push (mkEvent 1 High (1 / 4) None None), PopSince (- 1) (- 1), Cleanup 2]"

definition scenario_low1 :: AudioEvent where
  "scenario_low1 = mkEvent 0 Low 1 None None"

definition sample_queue :: EventQueue where
  "sample_queue =
     \<lparr>events = [mkEvent (1 / 2) Low (1 / 2) None None, mkEvent 1 Mid (1 / 4) None None,
                mkEvent 2 High (1 / 4) None None, mkEvent 3 Full 1 None None],
      halfLife = 3 / 2\<rparr>"

text \<open>
  The curves as the specification words them: identity, square, square root, and rounding
  to the nearest multiple of \<open>1/8\<close>.
\<close>

fun spec_curve :: "curve \<Rightarrow> real \<Rightarrow> real" where
  "spec_curve Linear v = v"
| "spec_curve Exponential v = v * v"
| "spec_curve Logarithmic v = sqrt v"
| "spec_curve Quantized v = of_int (round (v * 8)) / 8"

text \<open>
  A connection resolves in a matrix when its three ids name a source, a transform and a
  target of the matrix.
\<close>

definition resolves :: "ModMatrix \<Rightarrow> ModConnection \<Rightarrow> bool" where
  "resolves m c =
     (find (\<lambda>s. src_id s = sourceId c) (sources m) \<noteq> None
      \<and> find (\<lambda>t. tr_id t = transformId c) (transforms m) \<noteq> None
      \<and> find (\<lambda>t. tgt_id t = targetId c) (targets m) \<noteq> None)"

definition mkConnection :: "string \<Rightarrow> string \<Rightarrow> string \<Rightarrow> real \<Rightarrow> ModConnection" where
  "mkConnection s tr t a = \<lparr>sourceId = s, transformId = tr, targetId = t, amount = a\<rparr>"

text \<open>
  The scenario of the specification: the default matrix, the \<open>low\<close> source at \<open>0.5\<close>, and the
  connection \<open>low \<rightarrow> env1 \<rightarrow> scale\<close> with amount \<open>0.8\<close>.
\<close>

definition scenario_analysis :: AudioAnalysis where
  "scenario_analysis =
     \<lparr>an_rms = 0, an_peak = 0, an_low = 1 / 2, an_mid = 0, an_high = 0, an_onset = False,
      an_bpm = 120, an_spectralCentroid = 0, an_pitch = 0\<rparr>"

definition scenario_matrix :: ModMatrix where
  "scenario_matrix =
     addConnection (updateAudioSources ModMatrix_new scenario_analysis)
       (mkConnection ''low'' ''env1'' ''scale'' (8 / 10))"

text \<open>Matrices with connections that name a missing source, transform or target.\<close>

definition dangling_matrix :: ModMatrix where
  "dangling_matrix =
     ModMatrix_new\<lparr>connections :=
       [mkConnection ''nope'' ''env1'' ''scale'' 1,
        mkConnection ''low'' ''env9'' ''scale'' 1,
        mkConnection ''low'' ''env1'' ''zoom'' 1]\<rparr>"

definition mixed_matrix :: ModMatrix where
  "mixed_matrix =
     (updateManualSource ModMatrix_new ''manual1'' (1 / 2))\<lparr>connections :=
       [mkConnection ''nope'' ''env1'' ''scale'' 1,
        mkConnection ''manual1'' ''env1'' ''hue'' 1]\<rparr>"

text \<open>
  Successive analysis ticks, each with its clock value and the spectrum delivered, and the
  frames they produce.
\<close>

fun run_ticks ::
  "AudioEngine \<Rightarrow> (real \<times> real list) list \<Rightarrow> engine_error + AnalysisFrame list" where
  "run_ticks s [] = Inr []"
| "run_ticks s ((currentTime, spectrum) # rest) =
     (case getAnalysisFrame s currentTime spectrum of
        Inl e \<Rightarrow> Inl e
      | Inr (frame, s') \<Rightarrow>
          (case run_ticks s' rest of Inl e \<Rightarrow> Inl e | Inr frames \<Rightarrow> Inr (frame # frames)))"

text \<open>
  An engine after \<open>setFFTSize(32)\<close> and \<open>initialize()\<close> on an audio context of 8 kHz, and two
  spectra: every bin at \<open>-60\<close> dB, every bin at \<open>-20\<close> dB.
\<close>

definition small_engine :: AudioEngine where
  "small_engine =
     \<lparr>analyser = True, sampleRate = 8000, bufferLength = 16,
      frequencyData = replicate 16 0, previousSpectrum = replicate 16 0,
      previousFrame = None\<rparr>"

definition quiet_spectrum :: "real list" where
  "quiet_spectrum = replicate 16 (- 60)"

definition loud_spectrum :: "real list" where
  "loud_spectrum = replicate 16 (- 20)"

section \<open>Properties of the rounding\<close>

lemma rhe_cases: "rhe q = \<lfloor>q\<rfloor> \<or> rhe q = \<lfloor>q\<rfloor> + 1"
  by (simp add: rhe_def Let_def)

lemma rhe_of_int [simp]: "rhe (of_int n) = n"
  by (simp add: rhe_def)

lemma rhe_ge_floor: "\<lfloor>q\<rfloor> \<le> rhe q"
  using rhe_cases [of q] by linarith

lemma rhe_le_int: "q \<le> of_int n \<Longrightarrow> rhe q \<le> n"
proof (cases "q = of_int n")
  case True
  then show ?thesis by simp
next
  case False
  assume "q \<le> of_int n"
  with False have "q < of_int n" by simp
  then have "\<lfloor>q\<rfloor> < n" by (simp add: floor_less_iff)
  then show ?thesis using rhe_cases [of q] by linarith
qed

lemma rhe_ge_int: "of_int n \<le> q \<Longrightarrow> n \<le> rhe q"
  using rhe_ge_floor [of q] by (meson le_floor_iff order_trans)

lemma rhe_mono: 
  assumes "p \<le> q" shows "rhe p \<le> rhe q"
proof (cases "\<lfloor>p\<rfloor> = \<lfloor>q\<rfloor>")
  case True
  have "q - of_int \<lfloor>q\<rfloor> \<ge> p - of_int \<lfloor>q\<rfloor>" using assms by simp
  then show ?thesis unfolding rhe_def Let_def True by (simp split: if_splits)
next
  case False
  have "\<lfloor>p\<rfloor> \<le> \<lfloor>q\<rfloor>" using assms by (rule floor_mono)
  then have "\<lfloor>p\<rfloor> + 1 \<le> \<lfloor>q\<rfloor>" using False by linarith
  then show ?thesis using rhe_cases [of p] rhe_ge_floor [of q] by linarith
qed

lemma floor_minus_nonint:
  assumes "q \<noteq> of_int \<lfloor>q\<rfloor>" shows "\<lfloor>- q\<rfloor> = - \<lfloor>q\<rfloor> - 1"
proof (rule floor_unique)
  have a: "of_int \<lfloor>q\<rfloor> \<le> q" "q < of_int \<lfloor>q\<rfloor> + 1" by linarith+
  from a(1) assms have b: "of_int \<lfloor>q\<rfloor> < q" by linarith
  show "of_int (- \<lfloor>q\<rfloor> - 1) \<le> - q" using a by simp
  show "- q < of_int (- \<lfloor>q\<rfloor> - 1) + 1" using b by simp
qed

lemma rhe_minus: "rhe (- q) = - rhe q"
proof (cases "q = of_int \<lfloor>q\<rfloor>")
  case True
  then obtain n where "q = of_int n" ..
  then show ?thesis by (simp flip: of_int_minus)
next
  case False
  note c = floor_minus_nonint [OF False]
  have ne: "q - of_int \<lfloor>q\<rfloor> \<noteq> 0" using False by simp
  consider "q - of_int \<lfloor>q\<rfloor> < 1 / 2" | "q - of_int \<lfloor>q\<rfloor> > 1 / 2" | "q - of_int \<lfloor>q\<rfloor> = 1 / 2"
    by linarith
  then show ?thesis
  proof cases
    case 1
    then show ?thesis unfolding rhe_def Let_def c by simp
  next
    case 2
    then show ?thesis unfolding rhe_def Let_def c by simp
  next
    case 3
    then show ?thesis unfolding rhe_def Let_def c by simp
  qed
qed

lemma two_powi_powr: "(2::real) powi k = 2 powr of_int k"
  by (simp add: powr_real_of_int')

lemma binade_bounds:
  assumes "x \<noteq> 0"
  shows "2 powi binade x \<le> \<bar>x\<bar>" "\<bar>x\<bar> < 2 powi (binade x + 1)"
proof -
  have pos: "0 < \<bar>x\<bar>" using assms by simp
  have "of_int (binade x) \<le> log 2 \<bar>x\<bar>" unfolding binade_def by linarith
  then show "2 powi binade x \<le> \<bar>x\<bar>"
    unfolding two_powi_powr using pos by (simp add: le_log_iff)
  have "log 2 \<bar>x\<bar> < of_int (binade x + 1)" unfolding binade_def by linarith
  then show "\<bar>x\<bar> < 2 powi (binade x + 1)"
    unfolding two_powi_powr using pos by (simp add: log_less_iff)
qed

lemma binade_eqI:
  assumes "2 powi k \<le> \<bar>x\<bar>" "\<bar>x\<bar> < 2 powi (k + 1)"
  shows "binade x = k"
proof -
  have pos: "0 < \<bar>x\<bar>" using assms(1) zero_less_power_int [of "2::real" k] by linarith
  have "of_int k \<le> log 2 \<bar>x\<bar>"
    using assms(1) pos unfolding two_powi_powr by (simp add: le_log_iff)
  moreover have "log 2 \<bar>x\<bar> < of_int k + 1"
    using assms(2) pos unfolding two_powi_powr by (simp add: log_less_iff)
  ultimately show ?thesis unfolding binade_def by (intro floor_unique) auto
qed

lemma binade_mono:
  assumes "0 < \<bar>x\<bar>" "\<bar>x\<bar> \<le> \<bar>y\<bar>" shows "binade x \<le> binade y"
  unfolding binade_def using assms by (intro floor_mono) simp

lemma binade_minus [simp]: "binade (- x) = binade x"
  by (simp add: binade_def)

lemma ulp_pos [simp]: "0 < ulp x"
  by (simp add: ulp_def)

lemma ulp_minus [simp]: "ulp (- x) = ulp x"
  by (simp add: ulp_def)

lemma fl_minus: "fl (- x) = - fl x"
  by (simp add: fl_def rhe_minus)

lemma binade_split:
  "(2::real) powi (k + 1) = 2 powi 53 * 2 powi (k - 52)"
  "(2::real) powi k = 2 powi 52 * 2 powi (k - 52)"
  using power_int_add [of "2::real" 53 "k - 52"] power_int_add [of "2::real" 52 "k - 52"]
  by (simp_all add: add.commute)

lemma fl_pos_bounds:
  assumes "0 < x"
  shows "2 powi binade x \<le> fl x" "fl x \<le> 2 powi (binade x + 1)"
proof -
  let ?u = "ulp x"
  have x0: "x \<noteq> 0" using assms by simp
  have b: "2 powi binade x \<le> x" "x < 2 powi (binade x + 1)"
    using binade_bounds [OF x0] assms by simp_all
  have "of_int (2 ^ 52) * ?u \<le> x"
    using b(1) unfolding ulp_def by (subst (asm) binade_split(2)) simp
  then have "of_int (2 ^ 52) \<le> x / ?u" by (simp add: pos_le_divide_eq)
  then have "2 ^ 52 \<le> rhe (x / ?u)" by (rule rhe_ge_int)
  then have "of_int (2 ^ 52) * ?u \<le> of_int (rhe (x / ?u)) * ?u"
    by (intro mult_right_mono) (simp_all only: of_int_le_iff ulp_pos less_imp_le)
  then show "2 powi binade x \<le> fl x"
    unfolding fl_def using x0 by (subst binade_split(2)) (simp add: ulp_def)
  have "x \<le> of_int (2 ^ 53) * ?u"
    using b(2) unfolding ulp_def by (subst (asm) binade_split(1)) simp
  then have "x / ?u \<le> of_int (2 ^ 53)" by (simp add: pos_divide_le_eq)
  then have "rhe (x / ?u) \<le> 2 ^ 53" by (rule rhe_le_int)
  then have "of_int (rhe (x / ?u)) * ?u \<le> of_int (2 ^ 53) * ?u"
    by (intro mult_right_mono) (simp_all only: of_int_le_iff ulp_pos less_imp_le)
  then show "fl x \<le> 2 powi (binade x + 1)"
    unfolding fl_def using x0 by (subst binade_split(1)) (simp add: ulp_def)
qed

lemma fl_nonneg: "0 \<le> x \<Longrightarrow> 0 \<le> fl x"
proof (cases "x = 0")
  case True
  then show ?thesis by (simp add: fl_def)
next
  case False
  assume "0 \<le> x"
  with False have "0 < x" by simp
  from fl_pos_bounds(1) [OF this] show ?thesis
    using zero_less_power_int [of "2::real" "binade x"] by linarith
qed

lemma fl_mono_pos:
  assumes "0 < x" "x \<le> y"
  shows "fl x \<le> fl y"
proof -
  have y: "0 < y" using assms by simp
  have kk: "binade x \<le> binade y"
    using assms by (intro binade_mono) simp_all
  show ?thesis
  proof (cases "binade x = binade y")
    case True
    then have u: "ulp x = ulp y" by (simp add: ulp_def)
    have "x / ulp y \<le> y / ulp y"
      using assms(2) by (simp add: divide_right_mono less_imp_le)
    then have "rhe (x / ulp y) \<le> rhe (y / ulp y)" by (rule rhe_mono)
    then have "of_int (rhe (x / ulp y)) * ulp y \<le> of_int (rhe (y / ulp y)) * ulp y"
      by (intro mult_right_mono) (simp_all only: of_int_le_iff ulp_pos less_imp_le)
    then show ?thesis using assms y by (simp add: fl_def u)
  next
    case False
    with kk have "binade x + 1 \<le> binade y" by linarith
    then have "(2::real) powi (binade x + 1) \<le> 2 powi binade y"
      by (intro power_int_increasing) simp_all
    then show ?thesis
      using fl_pos_bounds(2) [OF assms(1)] fl_pos_bounds(1) [OF y] by linarith
  qed
qed

lemma fl_mono:
  assumes "x \<le> y" shows "fl x \<le> fl y"
proof -
  consider "0 < x" | "x \<le> 0" "0 \<le> y" | "y < 0" using assms by linarith
  then show ?thesis
  proof cases
    case 1
    then show ?thesis using assms by (rule fl_mono_pos)
  next
    case 2
    have "fl x \<le> 0" using fl_nonneg [of "- x"] 2(1) by (simp add: fl_minus)
    moreover have "0 \<le> fl y" using 2(2) by (rule fl_nonneg)
    ultimately show ?thesis by linarith
  next
    case 3
    have "fl (- y) \<le> fl (- x)" using 3 assms by (intro fl_mono_pos) simp_all
    then show ?thesis by (simp add: fl_minus)
  qed
qed


lemma fl_zero [simp]: "fl 0 = 0"
  by (simp add: fl_def)

lemma fl_pos: "0 < x \<Longrightarrow> 0 < fl x"
  using fl_pos_bounds(1) [of x] zero_less_power_int [of "2::real" "binade x"] by linarith

lemma fl_neg: "x < 0 \<Longrightarrow> fl x < 0"
  using fl_pos [of "- x"] by (simp add: fl_minus)

lemma fl_nonneg_iff: "0 \<le> fl x \<longleftrightarrow> 0 \<le> x"
  using fl_nonneg [of x] fl_neg [of x] by (cases "0 \<le> x") auto

lemma dsub_nonneg_iff: "0 \<le> dsub a b \<longleftrightarrow> b \<le> a"
  by (simp add: dsub_def fl_nonneg_iff)

lemma fl_eval:
  assumes "2 powi k \<le> \<bar>x\<bar>" "\<bar>x\<bar> < 2 powi (k + 1)"
  shows "fl x = of_int (rhe (x / 2 powi (k - 52))) * 2 powi (k - 52)"
proof -
  have k: "binade x = k" using assms by (rule binade_eqI)
  have "0 < (2::real) powi k" by simp
  with assms(1) have "0 < \<bar>x\<bar>" by linarith
  then have "x \<noteq> 0" by simp
  then show ?thesis by (simp add: fl_def ulp_def k)
qed

lemma fl_exact:
  assumes "\<bar>m\<bar> < 2 ^ 53"
  shows "fl (of_int m * 2 powi e) = of_int m * 2 powi e"
proof (cases "m = 0")
  case True
  then show ?thesis by simp
next
  case False
  let ?x = "of_int m * (2::real) powi e"
  let ?k = "binade ?x"
  have x0: "?x \<noteq> 0" using False by simp
  have ax: "\<bar>?x\<bar> = of_int \<bar>m\<bar> * 2 powi e"
    by (simp add: abs_mult)
  have "of_int \<bar>m\<bar> < (2::real) ^ 53"
    using assms by (metis of_int_less_iff of_int_numeral of_int_power)
  then have "\<bar>?x\<bar> < 2 ^ 53 * 2 powi e"
    unfolding ax by (intro mult_strict_right_mono) simp_all
  also have "\<dots> = 2 powi (53 + e)"
    using power_int_add [of "2::real" 53 e] by simp
  finally have up: "\<bar>?x\<bar> < 2 powi (53 + e)" .
  have "(2::real) powi ?k < 2 powi (53 + e)"
    using binade_bounds(1) [OF x0] up by linarith
  have lt: "?k < 53 + e"
  proof (rule ccontr)
    assume "\<not> ?k < 53 + e"
    then have "53 + e \<le> ?k" by simp
    then have "(2::real) powi (53 + e) \<le> 2 powi ?k"
      by (intro power_int_increasing) simp_all
    with \<open>(2::real) powi ?k < 2 powi (53 + e)\<close> show False by linarith
  qed
  define n where "n = nat (e - (?k - 52))"
  define P :: real where "P = 2 powi (?k - 52)"
  have P: "0 < P" by (simp add: P_def)
  have n: "?k - 52 + int n = e"
    using lt by (simp add: n_def)
  have "(2::real) powi (?k - 52 + int n) = 2 powi (?k - 52) * 2 powi int n"
    by (rule power_int_add) simp
  then have pe: "(2::real) powi e = P * 2 ^ n"
    by (simp only: n power_int_of_nat P_def)
  have u: "ulp ?x = P" by (simp add: ulp_def P_def)
  have "?x / P = of_int m * (P * 2 ^ n) / P"
    by (simp only: pe)
  also have "\<dots> = of_int (m * 2 ^ n)"
    using P by simp
  finally have q: "?x / P = of_int (m * 2 ^ n)" .
  have restore: "of_int (m * 2 ^ n) * P = ?x"
    by (simp only: pe) simp
  have "fl ?x = of_int (rhe (?x / ulp ?x)) * ulp ?x"
    using x0 by (simp add: fl_def)
  also have "\<dots> = of_int (m * 2 ^ n) * P"
    by (simp only: q rhe_of_int u)
  also have "\<dots> = ?x"
    by (rule restore)
  finally show ?thesis .
qed


lemma representable_dyadic:
  assumes "\<bar>m\<bar> < 2 ^ 53"
  shows "representable (of_int m / 2 ^ n)"
proof -
  have "(2::real) powi (- int n) = 1 / 2 ^ n"
    by (simp add: power_int_minus_divide)
  then show ?thesis
    using fl_exact [OF assms, of "- int n"] by (simp add: representable_def)
qed

lemma representable_int:
  assumes "\<bar>m\<bar> < 2 ^ 53"
  shows "representable (of_int m)"
  using representable_dyadic [OF assms, of 0] by simp

lemma representable_zero [simp]: "representable 0"
  by (simp add: representable_def)

lemma fl_dyadic:
  assumes "\<bar>m\<bar> < 2 ^ 53"
  shows "fl (of_int m / 2 ^ n) = of_int m / 2 ^ n"
  using representable_dyadic [OF assms, of n] by (simp add: representable_def)

lemma le_fl_of_representable: "representable a \<Longrightarrow> a \<le> x \<Longrightarrow> a \<le> fl x"
  using fl_mono [of a x] by (simp add: representable_def)

lemma fl_le_of_representable: "representable a \<Longrightarrow> x \<le> a \<Longrightarrow> fl x \<le> a"
  using fl_mono [of x a] by (simp add: representable_def)

section \<open>Properties of the event queue\<close>

subsection \<open>The cluster window\<close>

lemma in_cluster_near:
  assumes "representable tx" "\<bar>tx - tn\<bar> \<le> clusterWindow"
  shows "in_cluster tn tx"
proof -
  have "tn - clusterWindow \<le> tx" "tx \<le> tn + clusterWindow"
    using assms(2) by linarith+
  then show ?thesis
    unfolding in_cluster_def dsub_def dadd_def
    using assms(1) by (simp add: le_fl_of_representable fl_le_of_representable)
qed

lemma not_in_cluster_far:
  assumes "representable tx" "\<not> in_cluster tn tx"
  shows "clusterWindow < \<bar>tx - tn\<bar>"
  using in_cluster_near [OF assms(1), of tn] assms(2) by linarith

subsection \<open>The loops in closed form\<close>

lemma cluster_split_filter:
  "cluster_split a b xs cl rm =
     (cl @ filter (\<lambda>e. a \<le> ev_t e \<and> ev_t e \<le> b) xs,
      rm @ filter (\<lambda>e. \<not> (a \<le> ev_t e \<and> ev_t e \<le> b)) xs)"
  by (induction xs arbitrary: cl rm) simp_all

lemma cluster_sums_sum_list:
  "cluster_sums xs (a, b, c, d, e) =
     (a + sum_list (map ev_energy xs),
      b + sum_list (map pitch_term xs),
      c + sum_list (map pitch_weight xs),
      d + sum_list (map centroid_term xs),
      e + sum_list (map centroid_weight xs))"
  by (induction xs arbitrary: a b c d e)
     (simp_all add: pitch_term_def pitch_weight_def centroid_term_def centroid_weight_def
        split: option.splits)

lemma popSince_loop_filter:
  "popSince_loop t0 t1 xs rel rem =
     (rel @ filter (\<lambda>e. t0 \<le> ev_t e \<and> ev_t e \<le> t1) xs,
      rem @ filter (\<lambda>e. t1 < ev_t e) xs)"
  by (induction xs arbitrary: rel rem) auto

lemma push_events:
  "events (push q e) =
     filter (\<lambda>x. \<not> in_cluster (ev_t e) (ev_t x)) (events q)
     @ [if filter (\<lambda>x. in_cluster (ev_t e) (ev_t x)) (events q) = []
        then e
        else (let cl = filter (\<lambda>x. in_cluster (ev_t e) (ev_t x)) (events q) @ [e];
                  pw = sum_list (map pitch_weight cl);
                  cw = sum_list (map centroid_weight cl)
              in \<lparr>ev_t = ev_t e, ev_band = ev_band e,
                  ev_energy = min (sum_list (map ev_energy cl)) 1,
                  ev_pitch = (if pw > 0 then Some (sum_list (map pitch_term cl) / pw) else None),
                  ev_centroid = (if cw > 0 then Some (sum_list (map centroid_term cl) / cw) else None)\<rparr>)]"
  by (simp add: push_def clusterEvent_def cluster_split_filter cluster_sums_sum_list Let_def
        in_cluster_def)

lemma push_halfLife: "halfLife (push q e) = halfLife q"
  by (simp add: push_def clusterEvent_def cluster_split_filter cluster_sums_sum_list Let_def)

lemma popSince_result: "fst (popSince q t0 t1) = filter (\<lambda>e. t0 \<le> ev_t e \<and> ev_t e \<le> t1) (events q)"
  by (simp add: popSince_def popSince_loop_filter)

lemma popSince_events: "events (snd (popSince q t0 t1)) = filter (\<lambda>e. t1 < ev_t e) (events q)"
  by (simp add: popSince_def popSince_loop_filter)

lemma popSince_halfLife: "halfLife (snd (popSince q t0 t1)) = halfLife q"
  by (simp add: popSince_def popSince_loop_filter)

lemma new_fields [simp]: "events (EventQueue_new h) = []" "halfLife (EventQueue_new h) = h"
  by (simp_all add: EventQueue_new_def)

lemma mset_filter_split:
  assumes "\<And>x. x \<in> set xs \<Longrightarrow> (C x \<longleftrightarrow> A x \<or> B x) \<and> \<not> (A x \<and> B x)"
  shows "mset (filter A xs) + mset (filter B xs) = mset (filter C xs)"
  using assms by (induction xs) auto

lemma push_shape:
  "\<exists>m. events (push q e) = filter (\<lambda>x. \<not> in_cluster (ev_t e) (ev_t x)) (events q) @ [m]
       \<and> ev_t m = ev_t e"
  by (simp add: push_events Let_def)

lemma push_apart:
  assumes "\<forall>x \<in> set (events q). \<not> in_cluster (ev_t e) (ev_t x)"
  shows "events (push q e) = events q @ [e]"
proof -
  have "filter (\<lambda>x. in_cluster (ev_t e) (ev_t x)) (events q) = []"
    using assms by (simp add: filter_empty_conv)
  moreover have "filter (\<lambda>x. \<not> in_cluster (ev_t e) (ev_t x)) (events q) = events q"
    using assms by (simp add: filter_id_conv)
  ultimately show ?thesis by (simp add: push_events)
qed

lemma push_two:
  "events (push (push (EventQueue_new h) e1) e2)
     = (if in_cluster (ev_t e2) (ev_t e1) then [merged e1 e2] else [e1, e2])"
proof -
  have one: "events (push (EventQueue_new h) e1) = [e1]"
    by (simp add: push_apart EventQueue_new_def)
  show ?thesis
    by (simp add: push_events [of "push (EventQueue_new h) e1"] one merged_def min.commute)
qed

subsection \<open>Separation of the held events\<close>

lemma apart_filter: "apart xs \<Longrightarrow> apart (filter P xs)"
  by (induction xs) auto

lemma apart_snoc:
  "apart (xs @ [e]) \<longleftrightarrow> apart xs \<and> (\<forall>x \<in> set xs. \<not> in_cluster (ev_t e) (ev_t x))"
  by (induction xs) auto

lemma apart_nth:
  assumes "apart xs" "i < j" "j < length xs"
  shows "\<not> in_cluster (ev_t (xs ! j)) (ev_t (xs ! i))"
  using assms
proof (induction xs arbitrary: i j)
  case Nil
  then show ?case by simp
next
  case (Cons x xs)
  obtain j' where j: "j = Suc j'" using Cons.prems(2) by (cases j) auto
  show ?case
  proof (cases i)
    case 0
    have "xs ! j' \<in> set xs" using Cons.prems(3) j by simp
    then show ?thesis using Cons.prems(1) 0 j by simp
  next
    case (Suc i')
    then show ?thesis using Cons.IH [of i' j'] Cons.prems j by simp
  qed
qed

lemma apart_push:
  assumes "apart (events q)"
  shows "apart (events (push q e))"
proof -
  obtain m where m: "events (push q e) = filter (\<lambda>x. \<not> in_cluster (ev_t e) (ev_t x)) (events q) @ [m]"
    and t: "ev_t m = ev_t e"
    using push_shape by blast
  show ?thesis
    unfolding m apart_snoc using assms by (simp add: apart_filter t)
qed

lemma apart_apply_op: "apart (events q) \<Longrightarrow> apart (events (apply_op q op))"
  by (cases op)
     (simp_all add: apart_push popSince_events apart_filter cleanup_def setHalfLife_def)

lemma apart_run_ops: "apart (events q) \<Longrightarrow> apart (events (run_ops q ops))"
  by (induction ops arbitrary: q) (simp_all add: apart_apply_op)

lemma times_apply_op:
  "set (map ev_t (events (apply_op q op))) \<subseteq> set (map ev_t (events q)) \<union> set (pushed_times [op])"
proof (cases op)
  case (Push e)
  obtain m where m: "events (push q e) = filter (\<lambda>x. \<not> in_cluster (ev_t e) (ev_t x)) (events q) @ [m]"
    and t: "ev_t m = ev_t e"
    using push_shape by blast
  show ?thesis unfolding Push by (auto simp: m t)
qed (auto simp: popSince_events cleanup_def setHalfLife_def)

lemma pushed_times_Cons: "set (pushed_times (op # ops)) = set (pushed_times [op]) \<union> set (pushed_times ops)"
  by (cases op) auto

lemma times_run_ops:
  "set (map ev_t (events (run_ops q ops))) \<subseteq> set (map ev_t (events q)) \<union> set (pushed_times ops)"
proof (induction ops arbitrary: q)
  case Nil
  then show ?case by simp
next
  case (Cons op ops)
  have "set (map ev_t (events (run_ops (apply_op q op) ops)))
          \<subseteq> set (map ev_t (events (apply_op q op))) \<union> set (pushed_times ops)"
    by (rule Cons.IH)
  then show ?case
    using times_apply_op [of q op] unfolding pushed_times_Cons [of op ops] by auto
qed


subsection \<open>Rounding at the sample values\<close>

lemma representable_samples:
  "representable double_0_001" "representable double_0_02" "representable double_0_031"
  "representable double_0_1" "representable double_0_4" "representable double_1_03"
  "representable clusterWindow"
  unfolding double_0_001_def double_0_02_def double_0_031_def double_0_1_def double_0_4_def
    double_1_03_def clusterWindow_def
  using representable_dyadic [of 1152921504606847 60] representable_dyadic [of 5764607523034235 58]
    representable_dyadic [of 1116892707587883 55] representable_dyadic [of 3602879701896397 55]
    representable_dyadic [of 3602879701896397 53] representable_dyadic [of 4638707616191611 52]
    representable_dyadic [of 1080863910568919 55]
  by simp_all

lemma representable_small:
  "representable 1" "representable 2" "representable 3" "representable 4"
  "representable (1 / 2)" "representable (3 / 2)" "representable (9 / 2)" "representable (1 / 64)"
  "representable (- 3)" "representable (- (7 / 2))"
  using representable_int [of 1] representable_int [of 2] representable_int [of 3]
    representable_int [of 4] representable_dyadic [of 1 1] representable_dyadic [of 3 1]
    representable_dyadic [of 9 1] representable_dyadic [of 1 6] representable_int [of "- 3"]
    representable_dyadic [of "- 7" 1]
  by simp_all

lemma fl_samples:
  "fl 1 = 1" "fl 2 = 2" "fl 3 = 3" "fl 4 = 4" "fl 1000 = 1000"
  "fl (1 / 2) = 1 / 2" "fl (3 / 2) = 3 / 2" "fl (9 / 2) = 9 / 2"
  "fl (- 3) = - 3" "fl (- (7 / 2)) = - (7 / 2)" "fl (- (5 / 2)) = - (5 / 2)"
  "fl (- (3 / 2)) = - (3 / 2)"
  using fl_dyadic [of 1 0] fl_dyadic [of 2 0] fl_dyadic [of 3 0] fl_dyadic [of 4 0]
    fl_dyadic [of 1000 0] fl_dyadic [of 1 1] fl_dyadic [of 3 1] fl_dyadic [of 9 1]
    fl_dyadic [of "- 3" 0] fl_dyadic [of "- 7" 1] fl_dyadic [of "- 5" 1] fl_dyadic [of "- 3" 1]
  by simp_all

lemma dsub_031: "dsub double_0_031 clusterWindow = 36028797018964 / 2 ^ 55"
  unfolding dsub_def double_0_031_def clusterWindow_def
  using fl_dyadic [of 36028797018964 55] by simp

lemma dsub_103: "dsub double_1_03 clusterWindow = 1"
proof -
  have x: "double_1_03 - clusterWindow = 36028797018963969 / 2 ^ 55"
    by (simp add: double_1_03_def clusterWindow_def)
  have "fl (36028797018963969 / 2 ^ 55) = 1"
    by (subst fl_eval [of 0]) (simp_all add: rhe_def Let_def power_int_minus_divide)
  then show ?thesis by (simp add: dsub_def x)
qed

lemma dmul_01_3: "dmul double_0_1 3 = 1351079888211149 / 2 ^ 52"
proof -
  have x: "double_0_1 * 3 = 10808639105689191 / 2 ^ 55"
    by (simp add: double_0_1_def)
  have "fl (10808639105689191 / 2 ^ 55) = 1351079888211149 / 2 ^ 52"
    by (subst fl_eval [of "- 2"]) (simp_all add: rhe_def Let_def power_int_minus_divide)
  then show ?thesis by (simp add: dmul_def x)
qed

lemma dsub_04: "dsub double_0_4 (1351079888211149 / 2 ^ 52) = 900719925474099 / 2 ^ 53"
  unfolding dsub_def double_0_4_def
  using fl_dyadic [of 900719925474099 53] by simp


lemma not_in_cluster_below:
  assumes "representable a" "tx < a" "a \<le> tn - clusterWindow"
  shows "\<not> in_cluster tn tx"
  using le_fl_of_representable [OF assms(1,3)] assms(2) by (simp add: in_cluster_def dsub_def)

lemma in_cluster_samples:
  "in_cluster double_1_03 1" "\<not> in_cluster double_0_031 double_0_001"
  "in_cluster double_0_02 0" "in_cluster (1 / 64) 0" "\<not> in_cluster 1 (1 / 64)"
  "in_cluster (65 / 64) 1"
proof -
  have "1 \<le> dadd double_1_03 clusterWindow"
    unfolding dadd_def
    by (rule le_fl_of_representable) (simp_all add: representable_small double_1_03_def clusterWindow_def)
  then show "in_cluster double_1_03 1"
    by (simp add: in_cluster_def dsub_103)
  show "\<not> in_cluster double_0_031 double_0_001"
    by (simp add: in_cluster_def dsub_031 double_0_001_def)
  show "in_cluster double_0_02 0"
    by (rule in_cluster_near) (simp_all add: double_0_02_def clusterWindow_def)
  show "in_cluster (1 / 64) 0"
    by (rule in_cluster_near) (simp_all add: clusterWindow_def)
  show "\<not> in_cluster 1 (1 / 64)"
    by (rule not_in_cluster_below [of "1 / 2"]) (simp_all add: representable_small clusterWindow_def)
  show "in_cluster (65 / 64) 1"
    by (rule in_cluster_near) (simp_all add: representable_small clusterWindow_def)
qed

lemma memory_loop_positive:
  assumes "0 < h"
  shows "memory_loop h now xs (Num m) =
           Num (m + (\<Sum>e\<leftarrow>filter (\<lambda>e. ev_t e \<le> now) xs.
                       ev_energy e * exp (- dsub now (ev_t e) / h)))"
proof (induction xs arbitrary: m)
  case Nil
  then show ?case by simp
next
  case (Cons x xs)
  show ?case
  proof (cases "ev_t x \<le> now")
    case True
    then have age: "0 \<le> dsub now (ev_t x)" by (simp add: dsub_nonneg_iff)
    then have "- dsub now (ev_t x) / h \<le> 0"
      using assms by (simp add: divide_nonpos_pos)
    then have "exp (- dsub now (ev_t x) / h) \<le> 1" by simp
    moreover have "(1::real) < 2 ^ 1024" by simp
    ultimately have small: "\<not> 2 ^ 1024 \<le> exp (- dsub now (ev_t x) / h)" by linarith
    have "js_exp (js_divide (- dsub now (ev_t x)) h) = Num (exp (- dsub now (ev_t x) / h))"
      using assms small by (simp add: js_divide_def)
    then show ?thesis
      using True age Cons.IH by (simp add: add.assoc)
  next
    case False
    then have "\<not> 0 \<le> dsub now (ev_t x)" by (simp add: dsub_nonneg_iff)
    then show ?thesis using False Cons.IH by simp
  qed
qed


subsection \<open>Clustering on push\<close>

text \<open>
  Claim C1, as amended. Let the time of \<open>e1\<close> lie in the cluster window that the code
  computes for \<open>e2\<close>, from \<open>e2.t - 0.03\<close> to \<open>e2.t + 0.03\<close> in double arithmetic; it does
  whenever the time of \<open>e1\<close> is a double and the two times are at most \<open>clusterWindow\<close>
  apart, the double of \<open>0.03\<close>. Then the two events, pushed into an empty queue, leave
  exactly one event: \<^const>\<open>merged\<close>. Its energy is \<open>min(1, e1.energy + e2.energy)\<close>, its time
  and band are those of the newer event, and its pitch is the energy-weighted mean of the
  pitches present when the energies of the events that carry one sum to more than zero,
  and absent otherwise, in particular when neither event has a pitch. The same holds for
  the centroid.
\<close>

theorem push_two_within_window:
  "(representable (ev_t e1) \<and> \<bar>ev_t e1 - ev_t e2\<bar> \<le> clusterWindow
      \<longrightarrow> in_cluster (ev_t e2) (ev_t e1))
   \<and> (in_cluster (ev_t e2) (ev_t e1) \<longrightarrow>
        events (push (push (EventQueue_new h) e1) e2) = [merged e1 e2]
        \<and> (ev_pitch e1 = None \<and> ev_pitch e2 = None \<longrightarrow> ev_pitch (merged e1 e2) = None)
        \<and> (ev_centroid e1 = None \<and> ev_centroid e2 = None
             \<longrightarrow> ev_centroid (merged e1 e2) = None))"
proof -
  have a: "in_cluster (ev_t e2) (ev_t e1)"
    if "representable (ev_t e1) \<and> \<bar>ev_t e1 - ev_t e2\<bar> \<le> clusterWindow"
    using that by (simp add: in_cluster_near)
  have b: "events (push (push (EventQueue_new h) e1) e2) = [merged e1 e2]"
    if "in_cluster (ev_t e2) (ev_t e1)"
    using that by (simp add: push_two)
  have c: "ev_pitch e1 = None \<and> ev_pitch e2 = None \<longrightarrow> ev_pitch (merged e1 e2) = None"
    by (simp add: merged_def pitch_weight_def)
  have d: "ev_centroid e1 = None \<and> ev_centroid e2 = None
             \<longrightarrow> ev_centroid (merged e1 e2) = None"
    by (simp add: merged_def centroid_weight_def)
  from a b c d show ?thesis by blast
qed

text \<open>
  The scenario of the specification: \<open>{t=0, energy=0.4}\<close> and then
  \<open>{t=0.02, energy=0.5, band='low'}\<close> leave one event, whose energy is \<open>0.9\<close> up to
  \<open>1 / 10 ^ 15\<close>. With the energies \<open>1/4\<close> and \<open>1/2\<close> and the pitches \<open>440\<close> and \<open>880\<close> the merged
  pitch is \<open>(440 / 4 + 880 / 2) / (3 / 4)\<close>.
\<close>

theorem push_two_within_window_witness:
  "representable (ev_t (mkEvent 0 Mid double_0_4 None None))
   \<and> \<bar>ev_t (mkEvent 0 Mid double_0_4 None None)
        - ev_t (mkEvent double_0_02 Low (1 / 2) None None)\<bar> \<le> clusterWindow
   \<and> events (push (push (EventQueue_new (3 / 2)) (mkEvent 0 Mid double_0_4 None None))
              (mkEvent double_0_02 Low (1 / 2) None None))
       = [mkEvent double_0_02 Low (8106479329266893 / 2 ^ 53) None None]
   \<and> \<bar>8106479329266893 / 2 ^ 53 - 9 / 10\<bar> \<le> (1 / 10 ^ 15 :: real)
   \<and> events (push (push (EventQueue_new (3 / 2)) (mkEvent 0 Mid (1 / 4) (Some 440) None))
              (mkEvent double_0_02 Low (1 / 2) (Some 880) (Some (1 / 2))))
       = [mkEvent double_0_02 Low (3 / 4) (Some (2200 / 3)) (Some (1 / 2))]"
proof -
  have h: "representable (0::real)" "\<bar>0 - double_0_02\<bar> \<le> clusterWindow"
    by (simp_all add: double_0_02_def clusterWindow_def)
  show ?thesis
    using push_two_within_window [of "mkEvent 0 Mid double_0_4 None None"
            "mkEvent double_0_02 Low (1 / 2) None None" "3 / 2"]
          push_two_within_window [of "mkEvent 0 Mid (1 / 4) (Some 440) None"
            "mkEvent double_0_02 Low (1 / 2) (Some 880) (Some (1 / 2))" "3 / 2"]
          h
    by (simp add: mkEvent_def merged_def pitch_weight_def centroid_weight_def pitch_term_def
          centroid_term_def double_0_4_def)
qed

text \<open>
  The claim as first stated fails twice. It gives the merged event a pitch whenever a
  member of the cluster has one: an event of energy \<open>0\<close> with a pitch, merged with an event
  without one, yields no pitch, because \<open>pitchWeight > 0\<close> fails. And it merges any two
  events at most \<open>0.03\<close> apart: the doubles of \<open>0.001\<close> and \<open>0.031\<close> are less than \<open>3/100\<close>
  apart, but \<open>0.031 - 0.03\<close> is \<open>0.0010000000000000009\<close>, above the first time, and both
  events stay.
\<close>

theorem merged_pitch_counterexample:
  "\<bar>ev_t (mkEvent 0 Low 0 (Some 440) None) - ev_t (mkEvent double_0_02 Low (1 / 2) None None)\<bar>
     \<le> 3 / 100
   \<and> ev_pitch (mkEvent 0 Low 0 (Some 440) None) = Some 440
   \<and> map ev_pitch (events (push (push (EventQueue_new (3 / 2)) (mkEvent 0 Low 0 (Some 440) None))
                              (mkEvent double_0_02 Low (1 / 2) None None))) = [None]
   \<and> \<bar>ev_t (mkEvent double_0_001 Low (1 / 2) None None)
        - ev_t (mkEvent double_0_031 Low (1 / 2) None None)\<bar> \<le> 3 / 100
   \<and> events (push (push (EventQueue_new (3 / 2)) (mkEvent double_0_001 Low (1 / 2) None None))
              (mkEvent double_0_031 Low (1 / 2) None None))
       = [mkEvent double_0_001 Low (1 / 2) None None, mkEvent double_0_031 Low (1 / 2) None None]"
proof -
  have a: "\<bar>0 - double_0_02\<bar> \<le> (3 / 100 :: real)"
          "\<bar>double_0_001 - double_0_031\<bar> \<le> (3 / 100 :: real)"
    by (simp_all add: double_0_02_def double_0_001_def double_0_031_def)
  show ?thesis
    using a
    by (simp add: push_two in_cluster_samples mkEvent_def merged_def pitch_weight_def
          pitch_term_def centroid_weight_def centroid_term_def)
qed

subsection \<open>Consuming a time window\<close>

text \<open>
  Claim C2. \<open>popSince(t0, t1)\<close> returns exactly the held events with \<open>t\<close> in \<open>[t0, t1]\<close>, in
  their order, and leaves exactly those with \<open>t > t1\<close>; for \<open>t0 \<le> t1\<close> no event before
  \<open>t0\<close> stays. Two calls over windows \<open>[t0, t1]\<close> and \<open>[t1', t2]\<close> with \<open>t1 \<le> t1'\<close> return
  together every event of the union once: the two results are disjoint and their multiset
  sum is the multiset of the events inside the union.
\<close>

theorem popSince_window:
  "fst (popSince q t0 t1) = filter (in_window t0 t1) (events q)
   \<and> events (snd (popSince q t0 t1)) = filter (\<lambda>e. t1 < ev_t e) (events q)
   \<and> halfLife (snd (popSince q t0 t1)) = halfLife q
   \<and> (t0 \<le> t1 \<longrightarrow> (\<forall>e \<in> set (events (snd (popSince q t0 t1))). \<not> ev_t e < t0))
   \<and> (t0 \<le> t1 \<and> t1 \<le> t1' \<and> t1' \<le> t2 \<longrightarrow>
        mset (fst (popSince q t0 t1)) + mset (fst (popSince (snd (popSince q t0 t1)) t1' t2))
          = mset (filter (\<lambda>e. in_window t0 t1 e \<or> in_window t1' t2 e) (events q))
        \<and> set (fst (popSince q t0 t1)) \<inter> set (fst (popSince (snd (popSince q t0 t1)) t1' t2)) = {})"
proof -
  have r: "fst (popSince q t0 t1) = filter (in_window t0 t1) (events q)" for q t0 t1
    unfolding in_window_def by (simp add: popSince_def popSince_loop_filter)
  have k: "events (snd (popSince q t0 t1)) = filter (\<lambda>e. t1 < ev_t e) (events q)" for q t0 t1
    by (simp add: popSince_def popSince_loop_filter)
  have h: "halfLife (snd (popSince q t0 t1)) = halfLife q"
    by (simp add: popSince_def popSince_loop_filter)
  have d: "\<forall>e \<in> set (events (snd (popSince q t0 t1))). \<not> ev_t e < t0" if "t0 \<le> t1"
    using that by (auto simp: k)
  have p: "mset (fst (popSince q t0 t1)) + mset (fst (popSince (snd (popSince q t0 t1)) t1' t2))
          = mset (filter (\<lambda>e. in_window t0 t1 e \<or> in_window t1' t2 e) (events q))"
    if "t0 \<le> t1" "t1 \<le> t1'" "t1' \<le> t2"
  proof -
    have "mset (filter (in_window t0 t1) (events q))
            + mset (filter (\<lambda>e. t1 < ev_t e \<and> in_window t1' t2 e) (events q))
          = mset (filter (\<lambda>e. in_window t0 t1 e \<or> in_window t1' t2 e) (events q))"
      using that by (intro mset_filter_split) (auto simp: in_window_def)
    then show ?thesis by (simp add: r k)
  qed
  have n: "set (fst (popSince q t0 t1)) \<inter> set (fst (popSince (snd (popSince q t0 t1)) t1' t2)) = {}"
    by (auto simp: r k in_window_def)
  from r k h d p n show ?thesis by blast
qed

theorem popSince_window_witness:
  "(1::real) \<le> 2 \<and> (2::real) \<le> 3
   \<and> fst (popSince sample_queue 1 2)
       = [mkEvent 1 Mid (1 / 4) None None, mkEvent 2 High (1 / 4) None None]
   \<and> events (snd (popSince sample_queue 1 2)) = [mkEvent 3 Full 1 None None]
   \<and> mset (fst (popSince sample_queue 1 2))
       + mset (fst (popSince (snd (popSince sample_queue 1 2)) 2 3))
       = mset [mkEvent 1 Mid (1 / 4) None None, mkEvent 2 High (1 / 4) None None,
               mkEvent 3 Full 1 None None]"
  using popSince_window [of sample_queue 1 2 2 3]
  by (simp add: sample_queue_def mkEvent_def in_window_def popSince_result popSince_events)


subsection \<open>The memory value\<close>

lemma exp_minus_one_bounds: "1 / 3 \<le> exp (- 1 :: real) \<and> exp (- 1 :: real) \<le> 2 / 5"
proof -
  have lo: "5 / 2 \<le> exp (1::real)"
    using exp_lower_Taylor_quadratic [of "1::real"] by simp
  have hi: "exp (1::real) \<le> 3" by (rule exp_le)
  have e: "exp (- 1 :: real) = 1 / exp 1" by (simp add: exp_minus inverse_eq_divide)
  have pos: "0 < exp (1::real)" by simp
  show ?thesis unfolding e using lo hi pos by (simp add: field_simps)
qed

lemma exp_minus_two_bounds: "1 / 9 \<le> exp (- 2 :: real) \<and> exp (- 2 :: real) \<le> 1 / 5"
proof -
  have lo: "5 \<le> exp (2::real)"
    using exp_lower_Taylor_quadratic [of "2::real"] by simp
  have "exp (2::real) = exp 1 * exp 1" by (simp flip: exp_add)
  also have "\<dots> \<le> 3 * 3" by (intro mult_mono exp_le) simp_all
  finally have hi: "exp (2::real) \<le> 9" by simp
  have e: "exp (- 2 :: real) = 1 / exp 2" by (simp add: exp_minus inverse_eq_divide)
  have pos: "0 < exp (2::real)" by simp
  show ?thesis unfolding e using lo hi pos by (simp add: field_simps)
qed

lemma exp_1000_overflows: "(2::real) ^ 1024 \<le> exp 1000"
proof -
  have "(5::real) \<le> exp 2"
    using exp_lower_Taylor_quadratic [of "2::real"] by simp
  then have "(5::real) ^ 500 \<le> exp 2 ^ 500"
    by (intro power_mono) simp_all
  also have "exp (2::real) ^ 500 = exp 1000"
    using exp_of_nat_mult [of 500 "2::real"] by simp
  finally have "(5::real) ^ 500 \<le> exp 1000" .
  moreover have "(2::real) ^ 1024 \<le> 5 ^ 500" by simp
  ultimately show ?thesis by linarith
qed

lemma dsub_self [simp]: "dsub a a = 0"
  by (simp add: dsub_def)

lemma dsub_samples:
  "dsub (3 / 2) 0 = 3 / 2" "dsub 3 0 = 3" "dsub 1000 0 = 1000" "dsub 1 0 = 1"
  "dsub 1 (1 / 2) = 1 / 2"
  by (simp_all add: dsub_def fl_samples)

lemma push_new: "push (EventQueue_new h) e = \<lparr>events = [e], halfLife = h\<rparr>"
proof -
  have "events (push (EventQueue_new h) e) = [e]"
    by (simp add: push_apart EventQueue_new_def)
  moreover have "halfLife (push (EventQueue_new h) e) = h"
    by (simp add: push_halfLife EventQueue_new_def)
  ultimately show ?thesis by (cases "push (EventQueue_new h) e") simp
qed

text \<open>
  Claim C3, as amended. For a half-life above zero, \<open>getMemoryValue(now)\<close> is the sum of
  \<open>energy * exp(-(now - t) / halfLife)\<close> over the held events with \<open>t \<le> now\<close>, capped at
  \<open>1\<close>; events with \<open>t > now\<close> add nothing; and when every held energy is in \<open>[0, 1]\<close> the
  value is a finite number in \<open>[0, 1]\<close>.
\<close>

theorem getMemoryValue_formula:
  assumes "0 < halfLife q"
  shows "getMemoryValue q now
           = Num (min 1 (\<Sum>e\<leftarrow>filter (\<lambda>e. ev_t e \<le> now) (events q).
                           ev_energy e * exp (- dsub now (ev_t e) / halfLife q)))
         \<and> getMemoryValue q now
             = getMemoryValue (q\<lparr>events := filter (\<lambda>e. ev_t e \<le> now) (events q)\<rparr>) now
         \<and> ((\<forall>e \<in> set (events q). 0 \<le> ev_energy e \<and> ev_energy e \<le> 1)
              \<longrightarrow> (\<exists>v. getMemoryValue q now = Num v \<and> 0 \<le> v \<and> v \<le> 1))"
proof -
  let ?f = "\<lambda>e. ev_energy e * exp (- dsub now (ev_t e) / halfLife q)"
  have a: "getMemoryValue q now = Num (min 1 (sum_list (map ?f (filter (\<lambda>e. ev_t e \<le> now) (events q)))))"
    by (simp add: getMemoryValue_def memory_loop_positive [OF assms] min.commute)
  have b: "getMemoryValue q now
             = getMemoryValue (q\<lparr>events := filter (\<lambda>e. ev_t e \<le> now) (events q)\<rparr>) now"
    by (simp add: getMemoryValue_def memory_loop_positive [OF assms])
  have c: "\<exists>v. getMemoryValue q now = Num v \<and> 0 \<le> v \<and> v \<le> 1"
    if "\<forall>e \<in> set (events q). 0 \<le> ev_energy e \<and> ev_energy e \<le> 1"
  proof -
    have "0 \<le> sum_list (map ?f (filter (\<lambda>e. ev_t e \<le> now) (events q)))"
      using that by (intro sum_list_nonneg) auto
    then show ?thesis by (simp add: a)
  qed
  from a b c show ?thesis by blast
qed

theorem getMemoryValue_formula_witness:
  "0 < halfLife sample_queue
   \<and> getMemoryValue sample_queue 1 = Num (min 1 (1 / 2 * exp (- (1 / 3)) + 1 / 4))
   \<and> (\<exists>v. getMemoryValue sample_queue 1 = Num v \<and> 0 \<le> v \<and> v \<le> 1)"
  using getMemoryValue_formula [of sample_queue 1]
  by (simp add: sample_queue_def mkEvent_def dsub_samples)

text \<open>
  Without the condition on the half-life the value need not be in \<open>[0, 1]\<close>. With half-life
  \<open>0\<close> and an event of energy \<open>1\<close> at the query time, \<open>-0 / 0\<close> is \<open>NaN\<close> and so is the
  result. With half-life \<open>-1\<close> and an event of energy \<open>0\<close> that is \<open>1000\<close> s old,
  \<open>0 * Math.exp(1000)\<close> is \<open>0 * Infinity\<close>: \<open>NaN\<close> again.
\<close>

theorem getMemoryValue_nan_counterexample:
  "0 \<le> ev_energy scenario_low1 \<and> ev_energy scenario_low1 \<le> 1
   \<and> events (push (EventQueue_new 0) scenario_low1) = [scenario_low1]
   \<and> getMemoryValue (push (EventQueue_new 0) scenario_low1) 0 = NaN
   \<and> events (push (EventQueue_new (- 1)) (mkEvent 0 Low 0 None None)) = [mkEvent 0 Low 0 None None]
   \<and> getMemoryValue (push (EventQueue_new (- 1)) (mkEvent 0 Low 0 None None)) 1000 = NaN"
proof -
  have "\<not> exp (1000::real) < 2 ^ 1024"
    using exp_1000_overflows by linarith
  then have "js_exp (Num 1000) = PosInf"
    by (simp only: js_exp.simps not_less if_True)
  then have a: "getMemoryValue \<lparr>events = [mkEvent 0 Low 0 None None], halfLife = - 1\<rparr> 1000 = NaN"
    by (simp add: getMemoryValue_def mkEvent_def dsub_samples js_divide_def)
  have b: "getMemoryValue \<lparr>events = [scenario_low1], halfLife = 0\<rparr> 0 = NaN"
    by (simp add: getMemoryValue_def scenario_low1_def mkEvent_def js_divide_def)
  have c: "0 \<le> ev_energy scenario_low1 \<and> ev_energy scenario_low1 \<le> 1"
    by (simp add: scenario_low1_def mkEvent_def)
  show ?thesis unfolding push_new using a b c by simp
qed

text \<open>
  Claim C4, as amended. With half-life \<open>1.5\<close> and the single event
  \<open>{t=0, band='low', energy=1.0}\<close>, \<open>getMemoryValue(1.5)\<close> is \<open>exp(-1)\<close>, between \<open>1/3\<close> and
  \<open>2/5\<close>, and \<open>getMemoryValue(3.0)\<close> is \<open>exp(-2)\<close>, between \<open>1/9\<close> and \<open>1/5\<close>: the
  parameter is the time constant of the decay, not the time after which the value halves.
\<close>

theorem half_life_scenario_values:
  "getMemoryValue (push (EventQueue_new (3 / 2)) scenario_low1) (3 / 2) = Num (exp (- 1))
   \<and> getMemoryValue (push (EventQueue_new (3 / 2)) scenario_low1) 3 = Num (exp (- 2))
   \<and> (1 / 3 :: real) \<le> exp (- 1) \<and> exp (- 1) \<le> (2 / 5 :: real)
   \<and> (1 / 9 :: real) \<le> exp (- 2) \<and> exp (- 2) \<le> (1 / 5 :: real)"
proof -
  have h: "(0::real) < 3 / 2" by simp
  have a: "getMemoryValue (push (EventQueue_new (3 / 2)) scenario_low1) (3 / 2) = Num (exp (- 1))"
    unfolding push_new
    by (simp add: getMemoryValue_def memory_loop_positive [OF h]
          scenario_low1_def mkEvent_def dsub_samples del: memory_loop.simps)
  have b: "getMemoryValue (push (EventQueue_new (3 / 2)) scenario_low1) 3 = Num (exp (- 2))"
    unfolding push_new
    by (simp add: getMemoryValue_def memory_loop_positive [OF h]
          scenario_low1_def mkEvent_def dsub_samples del: memory_loop.simps)
  show ?thesis unfolding a b using exp_minus_one_bounds exp_minus_two_bounds by simp
qed

text \<open>The value at \<open>1.5\<close> is not within \<open>0.001\<close> of \<open>0.5\<close>.\<close>

theorem half_life_scenario_counterexample:
  "\<not> js_within (getMemoryValue (push (EventQueue_new (3 / 2)) scenario_low1) (3 / 2))
        (1 / 2) (1 / 1000)"
proof -
  have h: "(0::real) < 3 / 2" by simp
  have "getMemoryValue (push (EventQueue_new (3 / 2)) scenario_low1) (3 / 2) = Num (exp (- 1))"
    unfolding push_new
    by (simp add: getMemoryValue_def memory_loop_positive [OF h]
          scenario_low1_def mkEvent_def dsub_samples del: memory_loop.simps)
  then show ?thesis using exp_minus_one_bounds by simp
qed


subsection \<open>One event per cluster window\<close>

lemma mkEvent_sel [simp]:
  "ev_t (mkEvent t b e p c) = t" "ev_band (mkEvent t b e p c) = b"
  "ev_energy (mkEvent t b e p c) = e" "ev_pitch (mkEvent t b e p c) = p"
  "ev_centroid (mkEvent t b e p c) = c"
  by (simp_all add: mkEvent_def)

lemma burst_ops_events:
  "events (run_ops (EventQueue_new (3 / 2)) burst_ops)
     = [mkEvent (1 / 64) Mid (3 / 4) None None, mkEvent 1 High (1 / 4) None None]"
proof -
  have a: "events (push (push (EventQueue_new (3 / 2)) (mkEvent 0 Low (1 / 2) None None))
                    (mkEvent (1 / 64) Mid (1 / 4) None None))
           = [mkEvent (1 / 64) Mid (3 / 4) None None]"
    by (simp add: push_two in_cluster_samples mkEvent_def merged_def pitch_weight_def
          pitch_term_def centroid_weight_def centroid_term_def)
  have b: "events (push (push (push (EventQueue_new (3 / 2)) (mkEvent 0 Low (1 / 2) None None))
                    (mkEvent (1 / 64) Mid (1 / 4) None None)) (mkEvent 1 High (1 / 4) None None))
           = [mkEvent (1 / 64) Mid (3 / 4) None None, mkEvent 1 High (1 / 4) None None]"
    by (subst push_apart) (simp_all add: a in_cluster_samples)
  have c: "dsub 2 (dmul (3 / 2) 3) = - (5 / 2)"
    by (simp add: dsub_def dmul_def fl_samples)
  show ?thesis
    by (simp add: burst_ops_def popSince_events popSince_halfLife cleanup_def b push_halfLife c)
qed

text \<open>
  Claim C6, as amended. After any sequence of \<open>push\<close>, \<open>popSince\<close>, \<open>cleanup\<close> (and
  \<open>setHalfLife\<close>) on a new queue, of the events at any two positions of the list the earlier
  one lies outside the cluster window that the code computes, in double arithmetic, for the
  later one; when the pushed times are doubles, the times at any two different positions
  are more than \<open>clusterWindow\<close> apart, the double of \<open>0.03\<close>. A push whose computed window
  holds a held event does not make the list longer: the events in the window are replaced
  by one event at the time of the new one. A push whose computed window holds no held event
  appends the event unchanged, so two events of which the first is outside the computed
  window of the second are both held. A held double at most \<open>clusterWindow\<close> away from the
  new time is in the computed window.
\<close>

theorem one_event_per_cluster_window:
  "(\<forall>i j. i < j \<and> j < length (events (run_ops (EventQueue_new h) ops))
         \<longrightarrow> \<not> in_cluster (ev_t (events (run_ops (EventQueue_new h) ops) ! j))
                           (ev_t (events (run_ops (EventQueue_new h) ops) ! i)))
   \<and> ((\<forall>t \<in> set (pushed_times ops). representable t) \<longrightarrow>
        (\<forall>i j. i < length (events (run_ops (EventQueue_new h) ops))
               \<and> j < length (events (run_ops (EventQueue_new h) ops)) \<and> i \<noteq> j
             \<longrightarrow> clusterWindow < \<bar>ev_t (events (run_ops (EventQueue_new h) ops) ! i)
                                    - ev_t (events (run_ops (EventQueue_new h) ops) ! j)\<bar>))
   \<and> ((\<exists>x \<in> set (events q). in_cluster (ev_t e) (ev_t x)) \<longrightarrow>
        length (events (push q e)) \<le> length (events q)
        \<and> (\<exists>m. events (push q e)
                  = filter (\<lambda>x. \<not> in_cluster (ev_t e) (ev_t x)) (events q) @ [m]
               \<and> ev_t m = ev_t e))
   \<and> ((\<forall>x \<in> set (events q). \<not> in_cluster (ev_t e) (ev_t x))
        \<longrightarrow> events (push q e) = events q @ [e])
   \<and> (\<not> in_cluster (ev_t e2) (ev_t e1)
        \<longrightarrow> events (push (push (EventQueue_new h) e1) e2) = [e1, e2])
   \<and> (representable tx \<and> \<bar>tx - tn\<bar> \<le> clusterWindow \<longrightarrow> in_cluster tn tx)"
proof -
  let ?es = "events (run_ops (EventQueue_new h) ops)"
  have ap: "apart ?es"
    by (rule apart_run_ops) (simp add: EventQueue_new_def)
  have a: "\<forall>i j. i < j \<and> j < length ?es \<longrightarrow> \<not> in_cluster (ev_t (?es ! j)) (ev_t (?es ! i))"
  proof (intro allI impI)
    fix i j
    assume "i < j \<and> j < length ?es"
    then show "\<not> in_cluster (ev_t (?es ! j)) (ev_t (?es ! i))"
      using apart_nth [OF ap, of i j] by blast
  qed
  have b: "\<forall>i j. i < length ?es \<and> j < length ?es \<and> i \<noteq> j
             \<longrightarrow> clusterWindow < \<bar>ev_t (?es ! i) - ev_t (?es ! j)\<bar>"
    if r: "\<forall>t \<in> set (pushed_times ops). representable t"
  proof (intro allI impI)
    fix i j
    assume ij: "i < length ?es \<and> j < length ?es \<and> i \<noteq> j"
    have "set (map ev_t ?es) \<subseteq> set (pushed_times ops)"
      using times_run_ops [of "EventQueue_new h" ops] by (simp add: EventQueue_new_def)
    then have rep: "representable (ev_t (?es ! k))" if "k < length ?es" for k
      using r that by (metis (no_types, lifting) nth_map nth_mem length_map subsetD)
    consider "i < j" | "j < i" using ij by linarith
    then show "clusterWindow < \<bar>ev_t (?es ! i) - ev_t (?es ! j)\<bar>"
    proof cases
      case 1
      then have "\<not> in_cluster (ev_t (?es ! j)) (ev_t (?es ! i))" using a ij by blast
      then show ?thesis using not_in_cluster_far rep ij by blast
    next
      case 2
      then have "\<not> in_cluster (ev_t (?es ! i)) (ev_t (?es ! j))" using a ij by blast
      then have "clusterWindow < \<bar>ev_t (?es ! j) - ev_t (?es ! i)\<bar>"
        using not_in_cluster_far rep ij by blast
      then show ?thesis by (simp add: abs_minus_commute)
    qed
  qed
  have c: "length (events (push q e)) \<le> length (events q)
        \<and> (\<exists>m. events (push q e)
                  = filter (\<lambda>x. \<not> in_cluster (ev_t e) (ev_t x)) (events q) @ [m]
               \<and> ev_t m = ev_t e)"
    if "\<exists>x \<in> set (events q). in_cluster (ev_t e) (ev_t x)"
  proof -
    obtain m where m: "events (push q e)
                         = filter (\<lambda>x. \<not> in_cluster (ev_t e) (ev_t x)) (events q) @ [m]"
      and t: "ev_t m = ev_t e"
      using push_shape by blast
    from that obtain x where x: "x \<in> set (events q)" "in_cluster (ev_t e) (ev_t x)"
      by blast
    have "length (filter (\<lambda>x. \<not> in_cluster (ev_t e) (ev_t x)) (events q)) < length (events q)"
      by (rule length_filter_less [of x]) (use x in auto)
    then show ?thesis using m t by auto
  qed
  have d: "events (push q e) = events q @ [e]"
    if "\<forall>x \<in> set (events q). \<not> in_cluster (ev_t e) (ev_t x)"
    using that by (rule push_apart)
  have e: "events (push (push (EventQueue_new h) e1) e2) = [e1, e2]"
    if "\<not> in_cluster (ev_t e2) (ev_t e1)"
    using that by (simp add: push_two)
  have f: "in_cluster tn tx" if "representable tx \<and> \<bar>tx - tn\<bar> \<le> clusterWindow"
    using that by (simp add: in_cluster_near)
  from a b c d e f show ?thesis by blast
qed


lemma sample_queue_far: "\<forall>x \<in> set (events sample_queue). \<not> in_cluster 4 (ev_t x)"
proof -
  have "\<not> in_cluster 4 tx" if "tx \<le> 3" for tx
    by (rule not_in_cluster_below [of "7 / 2"])
       (use that representable_dyadic [of 7 1] in \<open>simp_all add: clusterWindow_def\<close>)
  then show ?thesis by (simp add: sample_queue_def)
qed

text \<open>
  A burst at \<open>0\<close> and \<open>1/64\<close> is merged and the event at \<open>1\<close> stays apart; a push at \<open>65/64\<close>
  merges with the event at \<open>1\<close>, a push at \<open>4\<close> is appended.
\<close>

theorem one_event_per_cluster_window_witness:
  "events (run_ops (EventQueue_new (3 / 2)) burst_ops)
     = [mkEvent (1 / 64) Mid (3 / 4) None None, mkEvent 1 High (1 / 4) None None]
   \<and> \<not> in_cluster (ev_t (events (run_ops (EventQueue_new (3 / 2)) burst_ops) ! 1))
                   (ev_t (events (run_ops (EventQueue_new (3 / 2)) burst_ops) ! 0))
   \<and> clusterWindow < \<bar>ev_t (events (run_ops (EventQueue_new (3 / 2)) burst_ops) ! 0)
                        - ev_t (events (run_ops (EventQueue_new (3 / 2)) burst_ops) ! 1)\<bar>
   \<and> in_cluster (ev_t (mkEvent (65 / 64) Low 1 None None)) (ev_t (mkEvent 1 Mid (1 / 4) None None))
   \<and> length (events (push sample_queue (mkEvent (65 / 64) Low 1 None None)))
       \<le> length (events sample_queue)
   \<and> events (push sample_queue (mkEvent 4 Low 1 None None))
       = events sample_queue @ [mkEvent 4 Low 1 None None]
   \<and> \<not> in_cluster (ev_t (mkEvent 1 High (1 / 4) None None)) (ev_t (mkEvent (1 / 64) Low (1 / 2) None None))
   \<and> events (push (push (EventQueue_new (3 / 2)) (mkEvent (1 / 64) Low (1 / 2) None None))
              (mkEvent 1 High (1 / 4) None None))
       = [mkEvent (1 / 64) Low (1 / 2) None None, mkEvent 1 High (1 / 4) None None]
   \<and> representable (1::real) \<and> \<bar>1 - 65 / 64\<bar> \<le> clusterWindow"
proof -
  note a = one_event_per_cluster_window
    [of "3 / 2" burst_ops sample_queue "mkEvent (65 / 64) Low 1 None None"
        "mkEvent 1 High (1 / 4) None None" "mkEvent (1 / 64) Low (1 / 2) None None" 1 "65 / 64"]
  note b = one_event_per_cluster_window
    [of "3 / 2" "[]" sample_queue "mkEvent 4 Low 1 None None"
        "mkEvent 1 High (1 / 4) None None" "mkEvent (1 / 64) Low (1 / 2) None None" 1 "65 / 64"]
  have l: "(0::nat) < 1 \<and> (1::nat) < length (events (run_ops (EventQueue_new (3 / 2)) burst_ops))"
          "(0::nat) < length (events (run_ops (EventQueue_new (3 / 2)) burst_ops))
           \<and> (1::nat) < length (events (run_ops (EventQueue_new (3 / 2)) burst_ops))
           \<and> (0::nat) \<noteq> 1"
    by (simp_all add: burst_ops_events)
  have r: "\<forall>t \<in> set (pushed_times burst_ops). representable t"
    by (simp add: burst_ops_def representable_small)
  have h1: "\<exists>x \<in> set (events sample_queue).
              in_cluster (ev_t (mkEvent (65 / 64) Low 1 None None)) (ev_t x)"
    by (simp add: sample_queue_def in_cluster_samples)
  have h2: "\<forall>x \<in> set (events sample_queue). \<not> in_cluster (ev_t (mkEvent 4 Low 1 None None)) (ev_t x)"
    using sample_queue_far by simp
  have h3: "\<not> in_cluster (ev_t (mkEvent 1 High (1 / 4) None None))
                 (ev_t (mkEvent (1 / 64) Low (1 / 2) None None))"
    by (simp add: in_cluster_samples)
  have h4: "in_cluster (ev_t (mkEvent (65 / 64) Low 1 None None)) (ev_t (mkEvent 1 Mid (1 / 4) None None))"
    by (simp add: in_cluster_samples)
  have h5: "representable (1::real) \<and> \<bar>1 - 65 / 64\<bar> \<le> clusterWindow"
    by (simp add: representable_small clusterWindow_def)
  from a b l r h1 h2 h3 h4 h5 burst_ops_events show ?thesis by blast
qed

text \<open>
  With the distance read as \<open>3/100\<close> the claim as first stated fails both ways. The events
  at \<open>1\<close> and at the double of \<open>1.03\<close> are more than \<open>3/100\<close> apart, yet \<open>1.03 - 0.03\<close> rounds
  to \<open>1\<close> and they are merged. The events at the doubles of \<open>0.001\<close> and \<open>0.031\<close> are both
  held, yet they are less than \<open>3/100\<close> apart.
\<close>

theorem cluster_rounding_counterexample:
  "3 / 100 < \<bar>ev_t (mkEvent 1 Low (1 / 2) None None)
                - ev_t (mkEvent double_1_03 Low (1 / 4) None None)\<bar>
   \<and> events (push (push (EventQueue_new (3 / 2)) (mkEvent 1 Low (1 / 2) None None))
              (mkEvent double_1_03 Low (1 / 4) None None))
       = [mkEvent double_1_03 Low (3 / 4) None None]
   \<and> \<bar>ev_t (mkEvent double_0_001 Low (1 / 2) None None)
        - ev_t (mkEvent double_0_031 Low (1 / 2) None None)\<bar> \<le> 3 / 100
   \<and> events (push (push (EventQueue_new (3 / 2)) (mkEvent double_0_001 Low (1 / 2) None None))
              (mkEvent double_0_031 Low (1 / 2) None None))
       = [mkEvent double_0_001 Low (1 / 2) None None, mkEvent double_0_031 Low (1 / 2) None None]"
proof -
  have a: "3 / 100 < \<bar>1 - double_1_03\<bar>" "\<bar>double_0_001 - double_0_031\<bar> \<le> (3 / 100 :: real)"
    by (simp_all add: double_1_03_def double_0_001_def double_0_031_def)
  have b: "merged (mkEvent 1 Low (1 / 2) None None) (mkEvent double_1_03 Low (1 / 4) None None)
           = mkEvent double_1_03 Low (3 / 4) None None"
    by (simp add: merged_def mkEvent_def pitch_weight_def centroid_weight_def)
  show ?thesis
    using a by (simp add: push_two in_cluster_samples b)
qed

subsection \<open>Half-life and expiry\<close>

text \<open>
  Claim C9, as amended. \<open>setHalfLife(h)\<close> stores every \<open>h\<close>, also \<open>h \<le> 0\<close>, and leaves the
  events alone; \<open>cleanup\<close>, \<open>getBandEvents\<close> and \<open>getMemoryValue\<close> then compute with \<open>h\<close>.
\<close>

theorem setHalfLife_stores_any_value:
  "halfLife (setHalfLife q h) = h
   \<and> events (setHalfLife q h) = events q
   \<and> events (cleanup (setHalfLife q h) now)
       = filter (\<lambda>e. dsub now (dmul h 3) < ev_t e) (events q)
   \<and> getBandEvents (setHalfLife q h) b now
       = filter (\<lambda>e. ev_band e = b \<and> dsub now (ev_t e) < dmul h 3) (events q)
   \<and> getMemoryValue (setHalfLife q h) now = js_min (memory_loop h now (events q) (Num 0)) 1"
  by (simp add: setHalfLife_def cleanup_def getBandEvents_def getMemoryValue_def)

text \<open>
  \<open>setHalfLife(-1)\<close> on a queue of half-life \<open>1.5\<close> is not rejected: the half-life
  changes, and \<open>cleanup(1)\<close> now drops the event at \<open>t = 0\<close> that it kept before.
\<close>

theorem setHalfLife_nonpositive_counterexample:
  "(- 1 :: real) \<le> 0
   \<and> halfLife (setHalfLife \<lparr>events = [scenario_low1], halfLife = 3 / 2\<rparr> (- 1))
       \<noteq> halfLife \<lparr>events = [scenario_low1], halfLife = 3 / 2\<rparr>
   \<and> events (cleanup \<lparr>events = [scenario_low1], halfLife = 3 / 2\<rparr> 1) = [scenario_low1]
   \<and> events (cleanup (setHalfLife \<lparr>events = [scenario_low1], halfLife = 3 / 2\<rparr> (- 1)) 1) = []"
proof -
  have a: "dsub 1 (dmul (3 / 2) 3) = - (7 / 2)" "dsub 1 (dmul (- 1) 3) = 4"
    by (simp_all add: dsub_def dmul_def fl_samples)
  show ?thesis
    by (simp add: setHalfLife_def cleanup_def a scenario_low1_def)
qed

text \<open>
  Claim C10, as amended. \<open>cleanup(now)\<close> keeps, in their order, exactly the events with
  \<open>t > c\<close> and removes exactly those with \<open>t \<le> c\<close>, where \<open>c\<close> is the double that the code
  computes for \<open>now - halfLife * 3\<close>, the product and the difference each rounded. An event
  at a double \<open>t\<close> whose age \<open>now - t\<close> is at least the rounded product is removed, and every
  event kept has an age below the rounded product.
\<close>

theorem cleanup_keeps_younger:
  "events (cleanup q now) = filter (\<lambda>e. dsub now (dmul (halfLife q) 3) < ev_t e) (events q)
   \<and> halfLife (cleanup q now) = halfLife q
   \<and> (\<forall>e \<in> set (events q).
         representable (ev_t e) \<and> dmul (halfLife q) 3 \<le> now - ev_t e
         \<longrightarrow> e \<notin> set (events (cleanup q now)))
   \<and> (\<forall>e \<in> set (events (cleanup q now)).
         representable (ev_t e) \<longrightarrow> now - ev_t e < dmul (halfLife q) 3)"
proof -
  let ?c = "dsub now (dmul (halfLife q) 3)"
  have a: "events (cleanup q now) = filter (\<lambda>e. ?c < ev_t e) (events q)"
          "halfLife (cleanup q now) = halfLife q"
    by (simp_all add: cleanup_def)
  have k: "\<not> ?c < t" if "representable t" "dmul (halfLife q) 3 \<le> now - t" for t
  proof -
    have "t \<le> now - dmul (halfLife q) 3" using that(2) by linarith
    then have "t \<le> ?c" unfolding dsub_def using that(1) by (rule le_fl_of_representable [rotated])
    then show ?thesis by simp
  qed
  have b: "\<forall>e \<in> set (events q).
         representable (ev_t e) \<and> dmul (halfLife q) 3 \<le> now - ev_t e
         \<longrightarrow> e \<notin> set (events (cleanup q now))"
    using k by (auto simp: a)
  have c: "\<forall>e \<in> set (events (cleanup q now)).
         representable (ev_t e) \<longrightarrow> now - ev_t e < dmul (halfLife q) 3"
  proof (intro ballI impI)
    fix e
    assume e: "e \<in> set (events (cleanup q now))" and r: "representable (ev_t e)"
    from e have "?c < ev_t e" by (simp add: a)
    then have "\<not> dmul (halfLife q) 3 \<le> now - ev_t e" using k [OF r] by blast
    then show "now - ev_t e < dmul (halfLife q) 3" by simp
  qed
  from a b c show ?thesis by blast
qed

text \<open>
  With half-life \<open>1.5\<close> the product is \<open>4.5\<close> exactly: \<open>cleanup(4.5)\<close> removes the event at
  \<open>t = 0\<close>, and \<open>cleanup(4)\<close> keeps it.
\<close>

theorem cleanup_keeps_younger_witness:
  "representable (ev_t scenario_low1)
   \<and> dmul (halfLife \<lparr>events = [scenario_low1], halfLife = 3 / 2\<rparr>) 3 \<le> 9 / 2 - ev_t scenario_low1
   \<and> events (cleanup \<lparr>events = [scenario_low1], halfLife = 3 / 2\<rparr> (9 / 2)) = []
   \<and> events (cleanup \<lparr>events = [scenario_low1], halfLife = 3 / 2\<rparr> 4) = [scenario_low1]
   \<and> 4 - ev_t scenario_low1 < dmul (halfLife \<lparr>events = [scenario_low1], halfLife = 3 / 2\<rparr>) 3"
proof -
  have a: "dmul (3 / 2) 3 = 9 / 2" "dsub (9 / 2) (9 / 2) = 0" "dsub 4 (9 / 2) = - (1 / 2)"
    using fl_dyadic [of "- 1" 1] by (simp_all add: dsub_def dmul_def fl_samples)
  have e: "ev_t scenario_low1 = 0" by (simp add: scenario_low1_def)
  show ?thesis
    using cleanup_keeps_younger [of "\<lparr>events = [scenario_low1], halfLife = 3 / 2\<rparr>" "9 / 2"]
          cleanup_keeps_younger [of "\<lparr>events = [scenario_low1], halfLife = 3 / 2\<rparr>" 4]
    by (simp add: a e)
qed

text \<open>
  With half-life \<open>1.5\<close>, the event at \<open>t = 0\<close> has age \<open>4.5 = 3 \<times> 1.5\<close> at \<open>now = 4.5\<close>,
  which is not more than three half-lives, and \<open>cleanup(4.5)\<close> removes it.
\<close>

theorem cleanup_boundary_counterexample:
  "scenario_low1 \<in> set (events \<lparr>events = [scenario_low1], halfLife = 3 / 2\<rparr>)
   \<and> \<not> (9 / 2 - ev_t scenario_low1 > 3 * halfLife \<lparr>events = [scenario_low1], halfLife = 3 / 2\<rparr>)
   \<and> scenario_low1
       \<notin> set (events (cleanup \<lparr>events = [scenario_low1], halfLife = 3 / 2\<rparr> (9 / 2)))"
proof -
  have a: "dmul (3 / 2) 3 = 9 / 2" "dsub (9 / 2) (9 / 2) = 0"
    by (simp_all add: dsub_def dmul_def fl_samples)
  show ?thesis by (simp add: cleanup_def a scenario_low1_def)
qed

text \<open>
  Where the product is rounded up, an event of age three half-lives can stay: with the
  half-life and the event at the double of \<open>0.1\<close> and \<open>now\<close> the double of \<open>0.4\<close>, the product is
  \<open>0.30000000000000004\<close> and the cutoff \<open>0.09999999999999998\<close>, below the time of the event.
\<close>

lemma cleanup_rounding_example:
  "double_0_4 - double_0_1 = 3 * double_0_1
   \<and> events (cleanup \<lparr>events = [mkEvent double_0_1 Low 1 None None], halfLife = double_0_1\<rparr> double_0_4)
       = [mkEvent double_0_1 Low 1 None None]"
proof -
  have c: "dsub double_0_4 (dmul double_0_1 3) = 900719925474099 / 2 ^ 53"
    by (simp only: dmul_01_3 dsub_04)
  have "double_0_4 - double_0_1 = 3 * double_0_1"
    by (simp add: double_0_1_def double_0_4_def)
  moreover have "(900719925474099 / 2 ^ 53 :: real) < double_0_1"
    by (simp add: double_0_1_def)
  ultimately show ?thesis
    by (simp add: cleanup_def c)
qed

section \<open>Properties of the modulation matrix\<close>

subsection \<open>Arrays, lookups and the connection loop\<close>

lemma update_first_id: "find p xs = None \<Longrightarrow> update_first p f xs = xs"
  by (induction xs) (auto split: if_splits)

lemma find_update_first:
  assumes "\<And>x. p (f x) = p x"
  shows "find p (update_first p f xs) = map_option f (find p xs)"
  using assms by (induction xs) auto

lemma map_id_update_first:
  "map tgt_id (update_first p (\<lambda>t. t\<lparr>tgt_value := v\<rparr>) xs) = map tgt_id xs"
  by (induction xs) auto

lemma find_tgt_None_iff: "find (\<lambda>t. tgt_id t = x) tgts = None \<longleftrightarrow> x \<notin> set (map tgt_id tgts)"
  by (induction tgts) auto

lemma loop_ids:
  "processConnections_loop rnd srcs trs cs tgts k w = (tg, k', w')
     \<Longrightarrow> map tgt_id tg = map tgt_id tgts"
proof (induction cs arbitrary: tgts k w)
  case Nil
  then show ?case by simp
next
  case (Cons c cs)
  then show ?case
    by (auto split: option.splits prod.splits simp: map_id_update_first dest!: Cons.IH)
qed

lemma loop_append:
  "processConnections_loop rnd srcs trs (cs @ ds) tgts k w =
     (case processConnections_loop rnd srcs trs cs tgts k w of
        (tg, k', w') \<Rightarrow> processConnections_loop rnd srcs trs ds tg k' w')"
  by (induction cs arbitrary: tgts k w) (auto split: option.splits prod.splits)

lemma applyTransform_plain:
  assumes "\<not> (tr_trigger tr \<and> tr_gate tr)" "tr_jitter tr \<le> 0"
  shows "applyTransform rnd k v tr =
           (spec_curve (tr_curve tr) v * (tr_range_max tr - tr_range_min tr) + tr_range_min tr, k)"
  using assms
  by (cases "tr_curve tr") (auto simp: applyTransform_def Let_def round_def power2_eq_square)

lemma resolves_current:
  assumes "map tgt_id tgts = map tgt_id (targets m)"
  shows "resolves m c \<longleftrightarrow>
           (find (\<lambda>s. src_id s = sourceId c) (sources m) \<noteq> None
            \<and> find (\<lambda>t. tr_id t = transformId c) (transforms m) \<noteq> None
            \<and> find (\<lambda>t. tgt_id t = targetId c) tgts \<noteq> None)"
  using assms by (simp add: resolves_def find_tgt_None_iff)

lemma loop_skips_dangling:
  assumes "map tgt_id tgts = map tgt_id (targets m)"
  shows "fst (processConnections_loop rnd (sources m) (transforms m) cs tgts k w)
           = fst (processConnections_loop rnd (sources m) (transforms m)
                    (filter (resolves m) cs) tgts k w0)
         \<and> fst (snd (processConnections_loop rnd (sources m) (transforms m) cs tgts k w))
           = fst (snd (processConnections_loop rnd (sources m) (transforms m)
                         (filter (resolves m) cs) tgts k w0))
         \<and> snd (snd (processConnections_loop rnd (sources m) (transforms m) cs tgts k w))
           = w @ filter (\<lambda>c. \<not> resolves m c) cs"
  using assms
proof (induction cs arbitrary: tgts k w w0)
  case Nil
  then show ?case by simp
next
  case (Cons c cs)
  show ?case
  proof (cases "resolves m c")
    case True
    then obtain source transform target where
      f: "find (\<lambda>s. src_id s = sourceId c) (sources m) = Some source"
         "find (\<lambda>t. tr_id t = transformId c) (transforms m) = Some transform"
         "find (\<lambda>t. tgt_id t = targetId c) tgts = Some target"
      using resolves_current [OF Cons.prems, of c] by auto
    obtain v k' where a: "applyTransform rnd k (src_value source) transform = (v, k')"
      by (cases "applyTransform rnd k (src_value source) transform")
    let ?tg = "update_first (\<lambda>t. tgt_id t = targetId c) (\<lambda>t. t\<lparr>tgt_value := v * amount c\<rparr>) tgts"
    have ids: "map tgt_id ?tg = map tgt_id (targets m)"
      using Cons.prems by (simp add: map_id_update_first)
    show ?thesis
      using Cons.IH [OF ids, of k' w w0] True by (simp add: f a)
  next
    case False
    then have "processConnections_loop rnd (sources m) (transforms m) (c # cs) tgts k w
               = processConnections_loop rnd (sources m) (transforms m) cs tgts k (w @ [c])"
      using resolves_current [OF Cons.prems, of c] by (auto split: option.splits)
    then show ?thesis
      using Cons.IH [OF Cons.prems, of k "w @ [c]" w0] False by simp
  qed
qed

lemma processConnections_fields:
  "sources (fst (processConnections rnd k m)) = sources m
   \<and> transforms (fst (processConnections rnd k m)) = transforms m
   \<and> connections (fst (processConnections rnd k m)) = connections m
   \<and> targets (fst (processConnections rnd k m))
       = fst (processConnections_loop rnd (sources m) (transforms m) (connections m) (targets m) k [])
   \<and> fst (snd (processConnections rnd k m))
       = fst (snd (processConnections_loop rnd (sources m) (transforms m) (connections m) (targets m) k []))
   \<and> snd (snd (processConnections rnd k m))
       = snd (snd (processConnections_loop rnd (sources m) (transforms m) (connections m) (targets m) k []))"
  by (simp add: processConnections_def split: prod.splits)

lemma quantized_step: "\<bar>spec_curve Quantized v - v\<bar> \<le> 1 / 16"
proof -
  have "\<bar>of_int (round (v * 8)) - v * 8\<bar> \<le> 1 / 2"
    by (rule of_int_round_abs_le)
  then have "\<bar>(of_int (round (v * 8)) - v * 8) / 8\<bar> \<le> (1 / 2) / 8"
    by (simp only: abs_divide) simp
  moreover have "(of_int (round (v * 8)) - v * 8) / 8 = spec_curve Quantized v - v"
    by (simp add: field_simps)
  ultimately show ?thesis by simp
qed

lemma mixed_matrix_run:
  "processConnections (\<lambda>i. 0) 0
     (mixed_matrix\<lparr>connections := [mkConnection ''manual1'' ''env1'' ''hue'' 1]\<rparr>)
   = (mixed_matrix\<lparr>connections := [mkConnection ''manual1'' ''env1'' ''hue'' 1],
        targets := update_first (\<lambda>t. tgt_id t = ''hue'') (\<lambda>t. t\<lparr>tgt_value := 1 / 4\<rparr>)
                     defaultTargets\<rparr>, 0, [])"
  by (simp add: mixed_matrix_def processConnections_def updateManualSource_def ModMatrix_new_def
        mkConnection_def defaultSources_def mkSource_def defaultTransforms_def env1_def
        applyTransform_def Let_def defaultTargets_def mkTarget_def power2_eq_square)

lemma mixed_matrix_resolves:
  "filter (resolves mixed_matrix) (connections mixed_matrix)
     = [mkConnection ''manual1'' ''env1'' ''hue'' 1]
   \<and> filter (\<lambda>c. \<not> resolves mixed_matrix c) (connections mixed_matrix)
     = [mkConnection ''nope'' ''env1'' ''scale'' 1]"
  by (simp add: mixed_matrix_def resolves_def updateManualSource_def ModMatrix_new_def
        mkConnection_def defaultSources_def mkSource_def defaultTransforms_def env1_def
        defaultTargets_def mkTarget_def)

subsection \<open>The value a connection writes\<close>

text \<open>
  Claim C7. Let the last connection of the list resolve to a source and to a transform
  without trigger-and-gate envelope and without jitter, and let its target exist. After
  \<open>processConnections\<close> the target holds \<open>amount * (curve(source.value) * (max - min) + min)\<close>:
  the curve first, then the range, the amount last. The curves are the identity, the
  square, the square root (of a value \<open>\<ge> 0\<close>) and the nearest multiple of \<open>1/8\<close>, at most
  \<open>1/16\<close> away from the value.
\<close>

theorem connection_value:
  assumes "find (\<lambda>s. src_id s = sourceId c) (sources m) = Some source"
    and "find (\<lambda>t. tr_id t = transformId c) (transforms m) = Some transform"
    and "find (\<lambda>t. tgt_id t = targetId c) (targets m) \<noteq> None"
    and "connections m = cs @ [c]"
    and "\<not> (tr_trigger transform \<and> tr_gate transform)"
    and "tr_jitter transform \<le> 0"
    and "tr_curve transform = Logarithmic \<longrightarrow> 0 \<le> src_value source"
  shows "(\<exists>t'. find (\<lambda>t. tgt_id t = targetId c) (targets (fst (processConnections rnd k m)))
                 = Some t'
              \<and> tgt_value t'
                 = amount c * (spec_curve (tr_curve transform) (src_value source)
                                 * (tr_range_max transform - tr_range_min transform)
                               + tr_range_min transform))
         \<and> spec_curve Linear v = v
         \<and> spec_curve Exponential v = v\<^sup>2
         \<and> (0 \<le> v \<longrightarrow> 0 \<le> spec_curve Logarithmic v \<and> (spec_curve Logarithmic v)\<^sup>2 = v)
         \<and> (\<exists>n :: int. spec_curve Quantized v = of_int n / 8)
         \<and> \<bar>spec_curve Quantized v - v\<bar> \<le> 1 / 16"
proof -
  obtain tg k' w where l: "processConnections_loop rnd (sources m) (transforms m) cs (targets m) k []
                           = (tg, k', w)"
    by (cases "processConnections_loop rnd (sources m) (transforms m) cs (targets m) k []")
  have ids: "map tgt_id tg = map tgt_id (targets m)"
    using l by (rule loop_ids)
  then have "find (\<lambda>t. tgt_id t = targetId c) tg \<noteq> None"
    using assms(3) by (simp add: find_tgt_None_iff)
  then obtain target where t: "find (\<lambda>t. tgt_id t = targetId c) tg = Some target"
    by blast
  let ?v = "spec_curve (tr_curve transform) (src_value source)
              * (tr_range_max transform - tr_range_min transform) + tr_range_min transform"
  have a: "applyTransform rnd k' (src_value source) transform = (?v, k')"
    using assms(5,6) by (rule applyTransform_plain)
  have "targets (fst (processConnections rnd k m))
        = update_first (\<lambda>t. tgt_id t = targetId c) (\<lambda>t. t\<lparr>tgt_value := ?v * amount c\<rparr>) tg"
    by (simp add: processConnections_fields assms(4) loop_append l assms(1,2) t a)
  then have "find (\<lambda>t. tgt_id t = targetId c) (targets (fst (processConnections rnd k m)))
             = Some (target\<lparr>tgt_value := ?v * amount c\<rparr>)"
    by (simp add: find_update_first t)
  then have main: "\<exists>t'. find (\<lambda>t. tgt_id t = targetId c) (targets (fst (processConnections rnd k m)))
                 = Some t' \<and> tgt_value t' = amount c * ?v"
    by (simp add: mult.commute)
  have q: "\<exists>n :: int. spec_curve Quantized v = of_int n / 8"
    by auto
  have s: "0 \<le> v \<longrightarrow> 0 \<le> spec_curve Logarithmic v \<and> (spec_curve Logarithmic v)\<^sup>2 = v"
    by simp
  have e: "spec_curve Exponential v = v\<^sup>2"
    by (simp add: power2_eq_square)
  from main q s e quantized_step [of v] show ?thesis by simp
qed

text \<open>
  The scenario: \<open>low = 0.5\<close> through the exponential \<open>env1\<close> with range \<open>[0, 1]\<close> and amount
  \<open>0.8\<close> sets \<open>scale\<close> to \<open>0.8 * 0.5\<^sup>2 = 0.2\<close>.
\<close>

theorem connection_value_witness:
  "\<exists>t'. find (\<lambda>t. tgt_id t = ''scale'') (targets (fst (processConnections (\<lambda>i. 0) 0 scenario_matrix)))
            = Some t'
        \<and> tgt_value t' = 2 / 10"
proof -
  have h1: "find (\<lambda>s. src_id s = sourceId (mkConnection ''low'' ''env1'' ''scale'' (8 / 10)))
              (sources scenario_matrix) = Some (mkSource ''low'' ''Low'' (1 / 2) Audio)"
    by (simp add: scenario_matrix_def addConnection_def updateAudioSources_def ModMatrix_new_def
          defaultSources_def mkSource_def mkConnection_def sourceMap_def scenario_analysis_def)
  have h2: "find (\<lambda>t. tr_id t = transformId (mkConnection ''low'' ''env1'' ''scale'' (8 / 10)))
              (transforms scenario_matrix) = Some env1"
    by (simp add: scenario_matrix_def addConnection_def updateAudioSources_def ModMatrix_new_def
          defaultTransforms_def mkConnection_def env1_def)
  have h3: "find (\<lambda>t. tgt_id t = targetId (mkConnection ''low'' ''env1'' ''scale'' (8 / 10)))
              (targets scenario_matrix) \<noteq> None"
    by (simp add: scenario_matrix_def addConnection_def updateAudioSources_def ModMatrix_new_def
          defaultTargets_def mkTarget_def mkConnection_def)
  have h4: "connections scenario_matrix = [] @ [mkConnection ''low'' ''env1'' ''scale'' (8 / 10)]"
    by (simp add: scenario_matrix_def addConnection_def updateAudioSources_def ModMatrix_new_def)
  have h5: "\<not> (tr_trigger env1 \<and> tr_gate env1)" "tr_jitter env1 \<le> 0"
    by (simp_all add: env1_def)
  have h6: "tr_curve env1 = Logarithmic \<longrightarrow> 0 \<le> src_value (mkSource ''low'' ''Low'' (1 / 2) Audio)"
    by (simp add: mkSource_def)
  show ?thesis
    using connection_value [OF h1 h2 h3 h4 h5 h6, of "\<lambda>i. 0" 0 0]
    by (simp add: mkConnection_def mkSource_def env1_def)
qed

subsection \<open>Dangling references\<close>

text \<open>
  Claim C8. \<open>processConnections\<close> leaves the targets and the random stream exactly as the
  run over the resolving connections alone leaves them, reports the other connections,
  in order, and changes neither sources, transforms nor connections; when no connection
  resolves the matrix is unchanged. \<open>updateTransform\<close>, \<open>updateConnectionAmount\<close> and
  \<open>updateManualSource\<close> return the matrix unchanged when nothing matches their ids.
\<close>

theorem dangling_connections_are_skipped:
  "targets (fst (processConnections rnd k m))
     = targets (fst (processConnections rnd k
                       (m\<lparr>connections := filter (resolves m) (connections m)\<rparr>)))
   \<and> fst (snd (processConnections rnd k m))
     = fst (snd (processConnections rnd k
                   (m\<lparr>connections := filter (resolves m) (connections m)\<rparr>)))
   \<and> snd (snd (processConnections rnd k m)) = filter (\<lambda>c. \<not> resolves m c) (connections m)
   \<and> sources (fst (processConnections rnd k m)) = sources m
   \<and> transforms (fst (processConnections rnd k m)) = transforms m
   \<and> connections (fst (processConnections rnd k m)) = connections m
   \<and> ((\<forall>c \<in> set (connections m). \<not> resolves m c) \<longrightarrow> fst (processConnections rnd k m) = m)
   \<and> (find (\<lambda>t. tr_id t = tid) (transforms m) = None \<longrightarrow> updateTransform m tid ups = m)
   \<and> (find (\<lambda>c. sourceId c = sid \<and> targetId c = tgid) (connections m) = None
        \<longrightarrow> updateConnectionAmount m sid tgid a = m)
   \<and> (find (\<lambda>s. src_id s = sid \<and> src_type s = Manual) (sources m) = None
        \<longrightarrow> updateManualSource m sid v = m)"
proof -
  note l = loop_skips_dangling [of "targets m" m rnd "connections m" k "[]" "[]", OF refl]
  have a: "targets (fst (processConnections rnd k m))
     = targets (fst (processConnections rnd k
                       (m\<lparr>connections := filter (resolves m) (connections m)\<rparr>)))"
    using l by (simp add: processConnections_fields)
  have b: "fst (snd (processConnections rnd k m))
     = fst (snd (processConnections rnd k
                   (m\<lparr>connections := filter (resolves m) (connections m)\<rparr>)))"
    using l by (simp add: processConnections_fields)
  have c: "snd (snd (processConnections rnd k m)) = filter (\<lambda>c. \<not> resolves m c) (connections m)"
    using l by (simp add: processConnections_fields)
  have d: "fst (processConnections rnd k m) = m" if "\<forall>c \<in> set (connections m). \<not> resolves m c"
  proof -
    from that have "filter (resolves m) (connections m) = []"
      by (simp add: filter_empty_conv)
    with l have "fst (processConnections_loop rnd (sources m) (transforms m) (connections m)
                   (targets m) k []) = targets m"
      by simp
    then show ?thesis
      by (cases "processConnections_loop rnd (sources m) (transforms m) (connections m)
                   (targets m) k []")
         (simp add: processConnections_def)
  qed
  have e: "updateTransform m tid ups = m" if "find (\<lambda>t. tr_id t = tid) (transforms m) = None"
    using that by (simp add: updateTransform_def update_first_id)
  have f: "updateConnectionAmount m sid tgid a = m"
    if "find (\<lambda>c. sourceId c = sid \<and> targetId c = tgid) (connections m) = None"
    using that by (simp add: updateConnectionAmount_def update_first_id)
  have g: "updateManualSource m sid v = m"
    if "find (\<lambda>s. src_id s = sid \<and> src_type s = Manual) (sources m) = None"
    using that by (simp add: updateManualSource_def update_first_id)
  from a b c d e f g processConnections_fields [of rnd k m] show ?thesis by blast
qed

text \<open>
  A dangling connection followed by a resolving one: the second still sets \<open>hue\<close>, the first
  is reported and \<open>scale\<close> keeps its value. Three dangling connections change nothing.
\<close>

theorem dangling_connections_are_skipped_witness:
  "targets (fst (processConnections (\<lambda>i. 0) 0 mixed_matrix))
     = update_first (\<lambda>t. tgt_id t = ''hue'') (\<lambda>t. t\<lparr>tgt_value := 1 / 4\<rparr>) defaultTargets
   \<and> snd (snd (processConnections (\<lambda>i. 0) 0 mixed_matrix))
     = [mkConnection ''nope'' ''env1'' ''scale'' 1]
   \<and> targets (fst (processConnections (\<lambda>i. 0) 0 dangling_matrix)) = defaultTargets
   \<and> length (snd (snd (processConnections (\<lambda>i. 0) 0 dangling_matrix))) = 3
   \<and> find (\<lambda>t. tr_id t = ''env9'') (transforms dangling_matrix) = None
   \<and> updateTransform dangling_matrix ''env9'' [SetJitter 1] = dangling_matrix
   \<and> find (\<lambda>c. sourceId c = ''low'' \<and> targetId c = ''hue'') (connections dangling_matrix) = None
   \<and> updateConnectionAmount dangling_matrix ''low'' ''hue'' 1 = dangling_matrix
   \<and> find (\<lambda>s. src_id s = ''low'' \<and> src_type s = Manual) (sources dangling_matrix) = None
   \<and> updateManualSource dangling_matrix ''low'' 1 = dangling_matrix"
proof -
  have r: "\<forall>c \<in> set (connections dangling_matrix). \<not> resolves dangling_matrix c"
    by (simp add: dangling_matrix_def ModMatrix_new_def resolves_def mkConnection_def
          defaultSources_def defaultTransforms_def defaultTargets_def mkSource_def mkTarget_def
          env1_def env2_def curve1_def)
  have h1: "find (\<lambda>t. tr_id t = ''env9'') (transforms dangling_matrix) = None"
    by (simp add: dangling_matrix_def ModMatrix_new_def defaultTransforms_def
          env1_def env2_def curve1_def)
  have h2: "find (\<lambda>c. sourceId c = ''low'' \<and> targetId c = ''hue'') (connections dangling_matrix) = None"
    by (simp add: dangling_matrix_def mkConnection_def)
  have h3: "find (\<lambda>s. src_id s = ''low'' \<and> src_type s = Manual) (sources dangling_matrix) = None"
    by (simp add: dangling_matrix_def ModMatrix_new_def defaultSources_def mkSource_def)
  have t: "targets dangling_matrix = defaultTargets" "length (connections dangling_matrix) = 3"
    by (simp_all add: dangling_matrix_def ModMatrix_new_def)
  from r have f: "filter (\<lambda>c. \<not> resolves dangling_matrix c) (connections dangling_matrix)
                  = connections dangling_matrix"
    by (simp add: filter_id_conv)
  show ?thesis
    using dangling_connections_are_skipped
            [of "\<lambda>i. 0" 0 dangling_matrix "''env9''" "[SetJitter 1]" "''low''" "''hue''" 1 1]
          dangling_connections_are_skipped
            [of "\<lambda>i. 0" 0 mixed_matrix "''env9''" "[SetJitter 1]" "''low''" "''hue''" 1 1]
          r h1 h2 h3 t f mixed_matrix_run mixed_matrix_resolves
    by simp
qed

section \<open>Properties of the onset detection\<close>

subsection \<open>The flux the code computes\<close>

lemma flux_loop_same: "prev = cur \<Longrightarrow> flux_loop cur prev i endBin flux = flux"
proof (induction cur prev i endBin flux rule: flux_loop.induct)
  case (1 currentSpectrum prevSpectrum i endBin flux)
  show ?case
  proof (cases "i < endBin")
    case True
    have "(case (read_f32 currentSpectrum i, read_f32 prevSpectrum i) of
             (Some a, Some b) \<Rightarrow> if a - b > 0 then flux + (a - b) else flux
           | _ \<Rightarrow> flux) = flux"
      using "1.prems" by (simp split: option.splits)
    then show ?thesis
      using "1.IH" [OF True "1.prems"] True
      by (subst flux_loop.simps) simp
  next
    case False
    then show ?thesis by (subst flux_loop.simps) simp
  qed
qed

lemma js_divide_zero: "js_divide 0 w = Num 0 \<or> js_divide 0 w = NaN"
  by (simp add: js_divide_def)

lemma calculateSpectralFlux_zero:
  "calculateSpectralFlux s b = Num 0 \<or> calculateSpectralFlux s b = NaN"
proof (cases "previousFrame s = None")
  case True
  then show ?thesis by (simp add: calculateSpectralFlux_def)
next
  case False
  obtain startBin endBin where bb: "band_bins s b = (startBin, endBin)"
    by (cases "band_bins s b")
  show ?thesis
    using False js_divide_zero [of "real_of_int (endBin - startBin)"]
    by (simp add: calculateSpectralFlux_def bb flux_loop_same)
qed

lemma no_onset: "\<not> js_greater (calculateSpectralFlux s b) (onsetThresholds b)"
  using calculateSpectralFlux_zero [of s b] by (cases b) auto

lemma detectBandOnsets_empty: "detectBandOnsets s = []"
  using no_onset [of s Low] no_onset [of s Mid] no_onset [of s High] no_onset [of s Full]
  by (simp add: detectBandOnsets_def Let_def del: onsetThresholds.simps)

lemma getAnalysisFrame_ok:
  "analyser s \<Longrightarrow>
   getAnalysisFrame s ct sp =
     Inr (\<lparr>af_time = ct, af_onsets = []\<rparr>,
          s\<lparr>frequencyData := fill_f32 (frequencyData s) sp,
            previousFrame := Some \<lparr>af_time = ct, af_onsets = []\<rparr>\<rparr>)"
  by (simp add: getAnalysisFrame_def Let_def detectBandOnsets_empty)

lemma spec_flux_replicate:
  assumes "a \<le> b" "startBin < endBin" "endBin \<le> n"
  shows "spec_flux (replicate n a) (replicate n b) startBin endBin = b - a"
proof -
  have "(\<Sum>i\<leftarrow>[startBin..<endBin]. max 0 (replicate n b ! i - replicate n a ! i))
        = (\<Sum>i\<leftarrow>[startBin..<endBin]. b - a)"
    by (rule arg_cong [where f = sum_list], rule map_cong) (use assms in auto)
  also have "\<dots> = real (endBin - startBin) * (b - a)"
    by (simp add: sum_list_triv)
  finally show ?thesis using assms by (simp add: spec_flux_def)
qed

text \<open>
  Claim C5 does not hold of the code. \<open>calculateSpectralFlux\<close> takes \<open>this.frequencyData\<close>
  for the previous spectrum as well, so every difference is \<open>0\<close> and no band ever exceeds
  its threshold. Two ticks, the first at \<open>-60\<close> dB in every bin and the second at \<open>-20\<close> dB:
  the flux between the two spectra is \<open>40\<close> in each band (bins \<open>0..<1\<close>, \<open>1..<8\<close>, \<open>8..<16\<close>
  and \<open>0..<16\<close>), above every threshold, and the second frame has no onsets.
\<close>

theorem second_tick_reports_no_onset:
  "run_ticks small_engine [(0, quiet_spectrum), (16 / 1000, loud_spectrum)]
     = Inr [\<lparr>af_time = 0, af_onsets = []\<rparr>, \<lparr>af_time = 16 / 1000, af_onsets = []\<rparr>]
   \<and> band_bins small_engine Low = (0, 1)
   \<and> spec_flux quiet_spectrum loud_spectrum 0 1 = 40
   \<and> onsetThresholds Low < spec_flux quiet_spectrum loud_spectrum 0 1
   \<and> band_bins small_engine Mid = (1, 8)
   \<and> spec_flux quiet_spectrum loud_spectrum 1 8 = 40
   \<and> onsetThresholds Mid < spec_flux quiet_spectrum loud_spectrum 1 8
   \<and> band_bins small_engine High = (8, 16)
   \<and> spec_flux quiet_spectrum loud_spectrum 8 16 = 40
   \<and> onsetThresholds High < spec_flux quiet_spectrum loud_spectrum 8 16
   \<and> band_bins small_engine Full = (0, 16)
   \<and> spec_flux quiet_spectrum loud_spectrum 0 16 = 40
   \<and> onsetThresholds Full < spec_flux quiet_spectrum loud_spectrum 0 16"
proof -
  have a: "analyser small_engine"
    by (simp add: small_engine_def)
  have r: "run_ticks small_engine [(0, quiet_spectrum), (16 / 1000, loud_spectrum)]
     = Inr [\<lparr>af_time = 0, af_onsets = []\<rparr>, \<lparr>af_time = 16 / 1000, af_onsets = []\<rparr>]"
    by (simp add: getAnalysisFrame_ok a)
  have b: "band_bins small_engine Low = (0, 1)" "band_bins small_engine Mid = (1, 8)"
          "band_bins small_engine High = (8, 16)" "band_bins small_engine Full = (0, 16)"
    by (simp_all add: small_engine_def freq_bin_def lowPassFreq_def midPassFreq_def)
  have f: "spec_flux quiet_spectrum loud_spectrum 0 1 = 40"
          "spec_flux quiet_spectrum loud_spectrum 1 8 = 40"
          "spec_flux quiet_spectrum loud_spectrum 8 16 = 40"
          "spec_flux quiet_spectrum loud_spectrum 0 16 = 40"
    unfolding quiet_spectrum_def loud_spectrum_def by (simp_all add: spec_flux_replicate)
  have t: "onsetThresholds Low < spec_flux quiet_spectrum loud_spectrum 0 1"
          "onsetThresholds Mid < spec_flux quiet_spectrum loud_spectrum 1 8"
          "onsetThresholds High < spec_flux quiet_spectrum loud_spectrum 8 16"
          "onsetThresholds Full < spec_flux quiet_spectrum loud_spectrum 0 16"
    unfolding f by simp_all
  from r b f t show ?thesis by blast
qed

end
